theory Spec2Isabelle
  imports Complex_Main "HOL-Library.Word" "HOL-Library.Sublist"
begin

section \<open>Data model of the catalog repository\<close>

text \<open>
  The development embeds \<^verbatim>\<open>internal/repository/repository.go\<close>. The source holds two
  variants of that file: the large-catalog variant (\<^verbatim>\<open>targetSeedProducts = 100000\<close>,
  cursor scans, random seed identifiers) and the small-catalog variant
  (\<^verbatim>\<open>minSeedProducts = 5\<close>). \<^verbatim>\<open>CreateProduct\<close>, \<^verbatim>\<open>GetProduct\<close>, \<^verbatim>\<open>ListProducts\<close> and
  \<^verbatim>\<open>keyFor\<close> are the same text in both; the seeding and verification functions of the
  small-catalog variant carry the suffix \<open>_small\<close> here.

  Go's \<^verbatim>\<open>int32\<close> is a 32-bit word read through \<open>sint\<close>; Go's \<^verbatim>\<open>int\<close> (64 bits on the
  supported platforms) is \<open>int\<close>, which is exact because every \<^verbatim>\<open>int\<close> the code computes
  is a slice length or the sum of two sign-extended 32-bit values. A \<^verbatim>\<open>time.Time\<close> is
  its instant in Unix nanoseconds together with its monotonic clock reading, if it carries
  one (a result of \<^verbatim>\<open>time.Now()\<close> does); its location is not part of the model. A
  \<^verbatim>\<open>float64\<close> price is the real number it denotes (prices are only stored and copied).
\<close>

type_synonym int32 = "32 word"

record time =
  instant :: int
  monotonic :: "int option"

record Product =
  ID :: string
  Name :: string
  Description :: string
  Price :: real
  Category :: string
  Stock :: int32
  CreatedAt :: time

text \<open>The zero \<^verbatim>\<open>time.Time\<close> is January 1 of year 1, 00:00 UTC.\<close>

definition zeroTime :: time where
  "zeroTime = \<lparr>instant = - 62135596800000000000, monotonic = None\<rparr>"

definition IsZero :: "time \<Rightarrow> bool" where
  "IsZero t = (instant t = - 62135596800000000000)"

definition UnixNano :: "time \<Rightarrow> int" where
  "UnixNano t = sint (word_of_int (instant t) :: 64 word)"

text \<open>
  A Go \<^verbatim>\<open>error\<close> is its message (wrapping with \<^verbatim>\<open>%w\<close> appends the wrapped message); a
  run-time panic is kept apart from it.
\<close>

datatype failure = Error string | Panic string

text \<open>What a go-redis command returns: a value, \<^verbatim>\<open>redis.Nil\<close>, or another error.\<close>

datatype 'a reply = Value 'a | RedisNil | Fail string

record RedisRepository =
  search_present :: bool
  indexName :: string
  searchEnabled :: bool

text \<open>A RediSearch query as \<^verbatim>\<open>ListProducts\<close> builds it, and an indexed document.\<close>

record query =
  q_raw :: string
  q_sort_field :: string
  q_sort_ascending :: bool
  q_offset :: int
  q_num :: int

record document =
  doc_id :: string
  doc_name :: string
  doc_description :: string
  doc_category :: string
  doc_price :: real
  doc_stock :: int32

text \<open>
  The collaborators of the repository, none of which is code of the repository: the Redis
  keyspace (\<open>kv\<close>, in the order the server enumerates it), the transport failures of each
  command (the message of the error, if the command fails), the reply of the search index to
  a query, the documents it has accepted, the JSON codec of \<^verbatim>\<open>encoding/json\<close> on products,
  the clock (the \<open>n\<close>-th reading of \<^verbatim>\<open>time.Now()\<close>) and the Warn lines the logger
  receives from \<^verbatim>\<open>CreateProduct\<close> (the Info and Debug lines, and the Warn lines of the read
  paths, have no effect on any result and are left out).
\<close>

record env =
  kv :: "(string \<times> string) list"
  get_fault :: "string \<Rightarrow> string option"
  set_fault :: "string \<Rightarrow> string option"
  keys_fault :: "string option"
  scan_fault :: "nat \<Rightarrow> string option"
  index_fault :: "string \<Rightarrow> string option"
  search_reply :: "query \<Rightarrow> string + (string list \<times> int)"
  index_docs :: "document list"
  json_Marshal :: "Product \<Rightarrow> string + string"
  json_Unmarshal :: "string \<Rightarrow> string + Product"
  clock :: "nat \<Rightarrow> time"
  ticks :: nat
  logs :: "string list"

definition productsKeyPrefix :: string where
  "productsKeyPrefix = ''product:''"

definition defaultIndexName :: string where
  "defaultIndexName = ''products-index''"

definition targetSeedProducts :: nat where
  "targetSeedProducts = 100000"

definition seedScanBatchSize :: nat where
  "seedScanBatchSize = 1000"

definition minSeedProducts :: nat where
  "minSeedProducts = 5"

definition seedProducts :: "Product list" where
  "seedProducts =
    [\<lparr>ID = ''seed-1'', Name = ''Laptop Pro 15'',
      Description = ''High-performance laptop with 16GB RAM and 512GB SSD'',
      Price = 1299.99, Category = ''Electronics'', Stock = 50, CreatedAt = zeroTime\<rparr>,
     \<lparr>ID = ''seed-2'', Name = ''Wireless Mouse'',
      Description = ''Ergonomic wireless mouse with long battery life'',
      Price = 29.99, Category = ''Electronics'', Stock = 200, CreatedAt = zeroTime\<rparr>,
     \<lparr>ID = ''seed-3'', Name = ''Office Chair'',
      Description = ''Comfortable ergonomic office chair with lumbar support'',
      Price = 199.99, Category = ''Furniture'', Stock = 30, CreatedAt = zeroTime\<rparr>,
     \<lparr>ID = ''seed-4'', Name = ''Coffee Maker'',
      Description = ''Automatic drip coffee maker with programmable timer'',
      Price = 79.99, Category = ''Appliances'', Stock = 75, CreatedAt = zeroTime\<rparr>,
     \<lparr>ID = ''seed-5'', Name = ''Running Shoes'',
      Description = ''Lightweight running shoes with breathable mesh'',
      Price = 89.99, Category = ''Sports'', Stock = 120, CreatedAt = zeroTime\<rparr>]"

definition seedCategories :: "string list" where
  "seedCategories = [''Electronics'', ''Home'', ''Sports'', ''Outdoors'', ''Health'',
     ''Beauty'', ''Automotive'', ''Toys'', ''Books'']"

section \<open>Strings\<close>

text \<open>
  \<^verbatim>\<open>strings.TrimPrefix\<close>, \<^verbatim>\<open>strings.Contains\<close> and \<^verbatim>\<open>strings.ToLower\<close>. Strings are byte
  lists; \<open>ToLower\<close> maps the ASCII capitals and leaves every other byte (the case mapping
  of Unicode outside ASCII is not part of the model).
\<close>

definition HasPrefix :: "string \<Rightarrow> string \<Rightarrow> bool" where
  "HasPrefix s p = (take (length p) s = p)"

definition TrimPrefix :: "string \<Rightarrow> string \<Rightarrow> string" where
  "TrimPrefix s p = (if HasPrefix s p then drop (length p) s else s)"

fun Contains :: "string \<Rightarrow> string \<Rightarrow> bool" where
  "Contains [] substr = (substr = [])"
| "Contains (c # s) substr = (if HasPrefix (c # s) substr then True else Contains s substr)"

definition lower_char :: "char \<Rightarrow> char" where
  "lower_char c =
     (if 65 \<le> (of_char c :: nat) \<and> (of_char c :: nat) \<le> 90
      then char_of ((of_char c :: nat) + 32) else c)"

definition ToLower :: "string \<Rightarrow> string" where
  "ToLower s = map lower_char s"

text \<open>\<^verbatim>\<open>fmt.Sprintf("%d", n)\<close>: the decimal digits of an integer.\<close>

fun show_nat :: "nat \<Rightarrow> string" where
  "show_nat n =
     (if n < 10 then [char_of (48 + n)] else show_nat (n div 10) @ [char_of (48 + n mod 10)])"

declare show_nat.simps [simp del]

definition fmt_d :: "int \<Rightarrow> string" where
  "fmt_d i = (if i < 0 then CHR ''-'' # show_nat (nat (- i)) else show_nat (nat i))"

section \<open>The store and index adapters\<close>

text \<open>
  The commands of the go-redis client on the keyspace. \<^verbatim>\<open>GET\<close> of an absent key is
  \<^verbatim>\<open>redis.Nil\<close>; \<^verbatim>\<open>SET\<close> replaces the value of a present key where it stands and adds an absent
  key at the end; \<^verbatim>\<open>KEYS product:*\<close> lists the keys with the prefix. A transport failure
  leaves the keyspace as it is.
\<close>

definition client_Get :: "env \<Rightarrow> string \<Rightarrow> string reply" where
  "client_Get w key =
     (case get_fault w key of
        Some e \<Rightarrow> Fail e
      | None \<Rightarrow> (case map_of (kv w) key of None \<Rightarrow> RedisNil | Some data \<Rightarrow> Value data))"

fun store_put :: "string \<Rightarrow> string \<Rightarrow> (string \<times> string) list \<Rightarrow> (string \<times> string) list" where
  "store_put key data [] = [(key, data)]"
| "store_put key data ((k, v) # kvs) =
     (if k = key then (key, data) # kvs else (k, v) # store_put key data kvs)"

definition client_Set :: "env \<Rightarrow> string \<Rightarrow> string \<Rightarrow> string + env" where
  "client_Set w key data =
     (case set_fault w key of
        Some e \<Rightarrow> Inl e
      | None \<Rightarrow> Inr (w\<lparr>kv := store_put key data (kv w)\<rparr>))"

definition product_keys :: "env \<Rightarrow> string list" where
  "product_keys w = filter (\<lambda>k. HasPrefix k productsKeyPrefix) (map fst (kv w))"

definition client_Keys :: "env \<Rightarrow> string + string list" where
  "client_Keys w = (case keys_fault w of Some e \<Rightarrow> Inl e | None \<Rightarrow> Inr (product_keys w))"

definition keyFor :: "string \<Rightarrow> string" where
  "keyFor pid = productsKeyPrefix @ pid"

section \<open>ListProducts\<close>

text \<open>
  The query of the indexed path (\<^verbatim>\<open>redisearch.NewQuery\<close>, \<^verbatim>\<open>SetSortBy("price", false)\<close>,
  \<^verbatim>\<open>Limit(int((page-1)*pageSize), int(pageSize))\<close>): the product \<^verbatim>\<open>(page-1)*pageSize\<close> is
  computed in \<^verbatim>\<open>int32\<close> and only then widened.
\<close>

definition search_query :: "int32 \<Rightarrow> int32 \<Rightarrow> string \<Rightarrow> string \<Rightarrow> query" where
  "search_query page pageSize category searchQuery =
     \<lparr>q_raw = (if category \<noteq> [] then searchQuery @ '' @category:{'' @ category @ ''}''
               else searchQuery),
      q_sort_field = ''price'',
      q_sort_ascending = False,
      q_offset = sint ((page - 1) * pageSize),
      q_num = sint pageSize\<rparr>"

text \<open>The loop over the documents of a search reply: a key that cannot be read or decoded
  is skipped.\<close>

fun fetch_docs :: "env \<Rightarrow> string list \<Rightarrow> Product list" where
  "fetch_docs w [] = []"
| "fetch_docs w (docId # docs) =
     (case client_Get w docId of
        Value data \<Rightarrow>
          (case json_Unmarshal w data of
             Inl e \<Rightarrow> fetch_docs w docs
           | Inr product \<Rightarrow> product # fetch_docs w docs)
      | RedisNil \<Rightarrow> fetch_docs w docs
      | Fail e \<Rightarrow> fetch_docs w docs)"

text \<open>The loop of the scan path over all keys, with the category and text filters.\<close>

fun scan_filter :: "env \<Rightarrow> string \<Rightarrow> string \<Rightarrow> string list \<Rightarrow> Product list" where
  "scan_filter w category searchQuery [] = []"
| "scan_filter w category searchQuery (key # keys) =
     (case client_Get w key of
        Value data \<Rightarrow>
          (case json_Unmarshal w data of
             Inl e \<Rightarrow> scan_filter w category searchQuery keys
           | Inr product \<Rightarrow>
               if category \<noteq> [] \<and> Category product \<noteq> category
               then scan_filter w category searchQuery keys
               else if searchQuery \<noteq> []
                    \<and> \<not> Contains (ToLower (Name product)) (ToLower searchQuery)
                    \<and> \<not> Contains (ToLower (Description product)) (ToLower searchQuery)
               then scan_filter w category searchQuery keys
               else product # scan_filter w category searchQuery keys)
      | RedisNil \<Rightarrow> scan_filter w category searchQuery keys
      | Fail e \<Rightarrow> scan_filter w category searchQuery keys)"

text \<open>
  The slice expression \<^verbatim>\<open>s[lo:hi]\<close> of Go on a slice whose capacity is its length: it panics
  unless \<open>0 \<le> lo \<le> hi \<le> len s\<close>.
\<close>

definition go_slice :: "'a list \<Rightarrow> int \<Rightarrow> int \<Rightarrow> failure + 'a list" where
  "go_slice s lo hi =
     (if 0 \<le> lo \<and> lo \<le> hi \<and> hi \<le> int (length s)
      then Inr (take (nat (hi - lo)) (drop (nat lo) s))
      else Inl (Panic ''slice bounds out of range''))"

text \<open>The in-memory pagination of the scan path, from \<^verbatim>\<open>total := int32(len(filtered))\<close> on.\<close>

definition paginate :: "Product list \<Rightarrow> int32 \<Rightarrow> int32 \<Rightarrow> failure + (Product list \<times> int32)" where
  "paginate filtered page pageSize =
     (let total = (word_of_nat (length filtered) :: int32) in
      if total = 0 then Inr ([], 0)
      else
        let page1 = (if sint page < 1 then 1 else page);
            pageSize1 = (if sint pageSize \<le> 0 then 10 else pageSize);
            start = sint ((page1 - 1) * pageSize1)
        in if start \<ge> int (length filtered) then Inr ([], total)
           else
             let end0 = start + sint pageSize1;
                 end1 = (if end0 > int (length filtered) then int (length filtered) else end0)
             in (case go_slice filtered start end1 of
                   Inl p \<Rightarrow> Inl p
                 | Inr products \<Rightarrow> Inr (products, total)))"

definition useSearch :: "RedisRepository \<Rightarrow> string \<Rightarrow> bool" where
  "useSearch r searchQuery = (searchQuery \<noteq> [] \<and> searchEnabled r \<and> search_present r)"

definition ListProducts ::
  "RedisRepository \<Rightarrow> env \<Rightarrow> int32 \<Rightarrow> int32 \<Rightarrow> string \<Rightarrow> string
     \<Rightarrow> failure + (Product list \<times> int32)" where
  "ListProducts r w page pageSize category searchQuery =
     (if useSearch r searchQuery then
        (case search_reply w (search_query page pageSize category searchQuery) of
           Inl e \<Rightarrow> Inl (Error (''search failed: '' @ e))
         | Inr (docs, totalResults) \<Rightarrow> Inr (fetch_docs w docs, word_of_int totalResults))
      else
        (case client_Keys w of
           Inl e \<Rightarrow> Inl (Error (''failed to get keys: '' @ e))
         | Inr allKeys \<Rightarrow> paginate (scan_filter w category searchQuery allKeys) page pageSize))"

section \<open>GetProduct and CreateProduct\<close>

definition GetProduct :: "RedisRepository \<Rightarrow> env \<Rightarrow> string \<Rightarrow> failure + Product" where
  "GetProduct r w pid =
     (let key = keyFor pid in
      case client_Get w key of
        RedisNil \<Rightarrow> Inl (Error (''product not found: '' @ pid))
      | Fail e \<Rightarrow> Inl (Error (''failed to get product: '' @ e))
      | Value data \<Rightarrow>
          (case json_Unmarshal w data of
             Inl e \<Rightarrow> Inl (Error (''failed to unmarshal product: '' @ e))
           | Inr product \<Rightarrow> Inr product))"

definition time_Now :: "env \<Rightarrow> time \<times> env" where
  "time_Now w = (clock w (ticks w), w\<lparr>ticks := Suc (ticks w)\<rparr>)"

definition search_Index :: "env \<Rightarrow> document \<Rightarrow> string + env" where
  "search_Index w doc =
     (case index_fault w (doc_id doc) of
        Some e \<Rightarrow> Inl e
      | None \<Rightarrow> Inr (w\<lparr>index_docs := index_docs w @ [doc]\<rparr>))"

text \<open>
  The first two statements of \<^verbatim>\<open>CreateProduct\<close>: an empty ID becomes the decimal Unix
  nanoseconds of the clock, a zero \<^verbatim>\<open>CreatedAt\<close> becomes the current time. The product is
  passed by pointer, so the caller sees both assignments whatever happens afterwards.
\<close>

definition assign_defaults :: "env \<Rightarrow> Product \<Rightarrow> Product \<times> env" where
  "assign_defaults w product =
     (let (p1, w1) =
            (if ID product = []
             then (let (t, w') = time_Now w in (product\<lparr>ID := fmt_d (UnixNano t)\<rparr>, w'))
             else (product, w))
      in if IsZero (CreatedAt p1)
         then (let (t, w') = time_Now w1 in (p1\<lparr>CreatedAt := t\<rparr>, w'))
         else (p1, w1))"

text \<open>
  \<^verbatim>\<open>CreateProduct\<close> returns the error (\<open>None\<close> for \<^verbatim>\<open>nil\<close>), the product as the caller's
  pointer holds it afterwards, and the collaborators after the call.
\<close>

definition CreateProduct ::
  "RedisRepository \<Rightarrow> env \<Rightarrow> Product \<Rightarrow> failure option \<times> Product \<times> env" where
  "CreateProduct r w product0 =
     (let (product, w1) = assign_defaults w product0;
          key = keyFor (ID product)
      in case json_Marshal w1 product of
           Inl e \<Rightarrow> (Some (Error (''failed to marshal product: '' @ e)), product, w1)
         | Inr data \<Rightarrow>
             (case client_Set w1 key data of
                Inl e \<Rightarrow> (Some (Error (''failed to set product: '' @ e)), product, w1)
              | Inr w2 \<Rightarrow>
                  if searchEnabled r \<and> search_present r
                  then
                    (case search_Index w2
                            \<lparr>doc_id = key, doc_name = Name product,
                             doc_description = Description product,
                             doc_category = Category product,
                             doc_price = Price product, doc_stock = Stock product\<rparr> of
                       Inl e \<Rightarrow> (None, product, w2\<lparr>logs := logs w2 @ [''Failed to index product'']\<rparr>)
                     | Inr w3 \<Rightarrow> (None, product, w3))
                  else (None, product, w2)))"

section \<open>Cursor scans\<close>

text \<open>
  \<^verbatim>\<open>SCAN cursor MATCH product:* COUNT n\<close>: the model hands out the matching keys \<open>n\<close> at a
  time, the cursor being the number of keys handed out so far, and returns cursor \<open>0\<close> with
  the last batch.
\<close>

definition client_Scan :: "env \<Rightarrow> nat \<Rightarrow> nat \<Rightarrow> string + (string list \<times> nat)" where
  "client_Scan w cursor n =
     (case scan_fault w cursor of
        Some e \<Rightarrow> Inl e
      | None \<Rightarrow>
          Inr (take n (drop cursor (product_keys w)),
               if cursor + n < length (product_keys w) then cursor + n else 0))"

lemma client_Scan_progress:
  assumes "client_Scan w cursor seedScanBatchSize = Inr (keys, nextCursor)" and "nextCursor \<noteq> 0"
  shows "length (product_keys w) - nextCursor < length (product_keys w) - cursor"
  using assms
  by (auto simp: client_Scan_def seedScanBatchSize_def split: option.splits if_splits)

function collect_loop :: "env \<Rightarrow> nat \<Rightarrow> string set \<Rightarrow> failure + string set" where
  "collect_loop w cursor existing =
     (case client_Scan w cursor seedScanBatchSize of
        Inl e \<Rightarrow> Inl (Error (''failed to scan product keys: '' @ e))
      | Inr (keys, nextCursor) \<Rightarrow>
          (let existing1 = fold (\<lambda>key ex. insert (TrimPrefix key productsKeyPrefix) ex) keys existing
           in if nextCursor = 0 then Inr existing1 else collect_loop w nextCursor existing1))"
  by pat_completeness auto
termination
  by (relation "measure (\<lambda>(w, cursor, existing). length (product_keys w) - cursor)")
     (auto dest: client_Scan_progress)

declare collect_loop.simps [simp del]

definition collectExistingProductIDs :: "env \<Rightarrow> failure + string set" where
  "collectExistingProductIDs w = collect_loop w 0 {}"

function count_loop :: "env \<Rightarrow> int \<Rightarrow> nat \<Rightarrow> nat \<Rightarrow> failure + nat" where
  "count_loop w shortCircuitAt cursor tot =
     (case client_Scan w cursor seedScanBatchSize of
        Inl e \<Rightarrow> Inl (Error (''failed to scan product keys: '' @ e))
      | Inr (keys, nextCursor) \<Rightarrow>
          (let tot1 = tot + length keys
           in if shortCircuitAt > 0 \<and> int tot1 \<ge> shortCircuitAt then Inr tot1
              else if nextCursor = 0 then Inr tot1
              else count_loop w shortCircuitAt nextCursor tot1))"
  by pat_completeness auto
termination
  by (relation "measure (\<lambda>(w, sc, cursor, tot). length (product_keys w) - cursor)")
     (auto dest: client_Scan_progress)

declare count_loop.simps [simp del]

definition countProducts :: "env \<Rightarrow> int \<Rightarrow> failure + nat" where
  "countProducts w shortCircuitAt = count_loop w shortCircuitAt 0 0"

function sample_loop :: "env \<Rightarrow> nat \<Rightarrow> failure + string" where
  "sample_loop w cursor =
     (case client_Scan w cursor seedScanBatchSize of
        Inl e \<Rightarrow> Inl (Error (''failed to scan for sample product: '' @ e))
      | Inr (keys, nextCursor) \<Rightarrow>
          (case keys of
             key # rest \<Rightarrow> Inr (TrimPrefix key productsKeyPrefix)
           | [] \<Rightarrow> if nextCursor = 0 then Inr [] else sample_loop w nextCursor))"
  by pat_completeness auto
termination
  by (relation "measure (\<lambda>(w, cursor). length (product_keys w) - cursor)")
     (auto dest: client_Scan_progress)

declare sample_loop.simps [simp del]

definition sampleProductID :: "env \<Rightarrow> failure + string" where
  "sampleProductID w = sample_loop w 0"

section \<open>The seeding engine\<close>

definition wrap :: "string \<Rightarrow> failure \<Rightarrow> failure" where
  "wrap msg err = (case err of Error m \<Rightarrow> Error (msg @ m) | Panic m \<Rightarrow> Panic m)"

text \<open>
  The loop over the base records (the same in both variants but for the text of the error):
  a base record whose ID is in the membership set is skipped, every other one is stamped
  and written with \<^verbatim>\<open>CreateProduct\<close>; the first write that fails ends the seeding.
\<close>

fun seed_base ::
  "string \<Rightarrow> RedisRepository \<Rightarrow> env \<Rightarrow> string set \<Rightarrow> Product list
     \<Rightarrow> failure option \<times> env \<times> string set" where
  "seed_base msg r w existing [] = (None, w, existing)"
| "seed_base msg r w existing (product # products) =
     (if ID product \<in> existing then seed_base msg r w existing products
      else
        (let (seed, w1) =
               (if IsZero (CreatedAt product)
                then (let (t, w') = time_Now w in (product\<lparr>CreatedAt := t\<rparr>, w'))
                else (product, w))
         in case CreateProduct r w1 seed of
              (Some err, seed1, w2) \<Rightarrow>
                (Some (wrap (msg @ ID product @ '': '') err), w2, existing)
            | (None, seed1, w2) \<Rightarrow>
                seed_base msg r w2 (insert (ID seed1) existing) products))"

text \<open>
  What gofakeit hands to one round of the loop of the large-catalog variant: a UUID and the
  fields of a product. The loop has no bound of its own (a UUID that is already a member is
  drawn again), so the model runs it on a finite supply of draws and returns \<open>None\<close> when the
  supply ends before the target is reached.
\<close>

record draw =
  d_uuid :: string
  d_name :: string
  d_description :: string
  d_price :: real
  d_category :: string
  d_stock :: int32

fun seed_random ::
  "nat \<Rightarrow> RedisRepository \<Rightarrow> env \<Rightarrow> string set \<Rightarrow> draw list
     \<Rightarrow> (failure option \<times> env) option" where
  "seed_random target r w existing [] =
     (if card existing < target then None else Some (None, w))"
| "seed_random target r w existing (d # ds) =
     (if card existing < target then
        (let pid = ''seed-'' @ filter (\<lambda>c. c \<noteq> CHR ''-'') (d_uuid d)
         in if pid \<in> existing then seed_random target r w existing ds
            else
              (let (t, w1) = time_Now w;
                   product = \<lparr>ID = pid, Name = d_name d, Description = d_description d,
                              Price = d_price d, Category = d_category d,
                              Stock = d_stock d, CreatedAt = t\<rparr>
               in case CreateProduct r w1 product of
                    (Some err, product1, w2) \<Rightarrow>
                      Some (Some (wrap (''failed to seed product '' @ pid @ '': '') err), w2)
                  | (None, product1, w2) \<Rightarrow>
                      seed_random target r w2 (insert pid existing) ds))
      else Some (None, w))"

text \<open>
  \<^verbatim>\<open>seedData\<close> of the large-catalog variant, with the seed target as a parameter; the
  function of the source is the instance at \<^verbatim>\<open>targetSeedProducts\<close>.
\<close>

definition seedData_to ::
  "nat \<Rightarrow> RedisRepository \<Rightarrow> env \<Rightarrow> draw list \<Rightarrow> (failure option \<times> env) option" where
  "seedData_to target r w draws =
     (case collectExistingProductIDs w of
        Inl err \<Rightarrow> Some (Some err, w)
      | Inr existing \<Rightarrow>
          if card existing \<ge> target then Some (None, w)
          else
            (case seed_base ''failed to seed base product '' r w existing seedProducts of
               (Some err, w1, existing1) \<Rightarrow> Some (Some err, w1)
             | (None, w1, existing1) \<Rightarrow>
                 if card existing1 \<ge> target then Some (None, w1)
                 else (let (t, w2) = time_Now w1 in seed_random target r w2 existing1 draws)))"

definition seedData ::
  "RedisRepository \<Rightarrow> env \<Rightarrow> draw list \<Rightarrow> (failure option \<times> env) option" where
  "seedData = seedData_to targetSeedProducts"

text \<open>The top-up loop of the small-catalog variant.\<close>

function seed_auto ::
  "RedisRepository \<Rightarrow> env \<Rightarrow> string set \<Rightarrow> nat \<Rightarrow> failure option \<times> env" where
  "seed_auto r w existing count =
     (if count < minSeedProducts then
        (let pid = ''seed-auto-'' @ fmt_d (int count + 1)
         in if pid \<in> existing then seed_auto r w existing (Suc count)
            else
              (let name = ''Sample Product '' @ fmt_d (int count + 1);
                   (t, w1) = time_Now w;
                   product = \<lparr>ID = pid, Name = name,
                              Description = ''Automatically generated sample product'',
                              Price = 49.99 + real count, Category = ''Sample'',
                              Stock = 20 + of_nat count, CreatedAt = t\<rparr>
               in case CreateProduct r w1 product of
                    (Some err, product1, w2) \<Rightarrow>
                      (Some (wrap (''failed to auto-seed product '' @ pid @ '': '') err), w2)
                  | (None, product1, w2) \<Rightarrow>
                      seed_auto r w2 (insert pid existing) (Suc count)))
      else (None, w))"
  by pat_completeness auto
termination
  by (relation "measure (\<lambda>(r, w, existing, count). minSeedProducts - count)") auto

declare seed_auto.simps [simp del]

definition seedData_small :: "RedisRepository \<Rightarrow> env \<Rightarrow> failure option \<times> env" where
  "seedData_small r w =
     (case client_Keys w of
        Inl e \<Rightarrow> (Some (Error (''failed to list product keys: '' @ e)), w)
      | Inr keys \<Rightarrow>
          (let existing = set (map (\<lambda>key. TrimPrefix key productsKeyPrefix) keys)
           in case seed_base ''failed to seed product '' r w existing seedProducts of
                (Some err, w1, existing1) \<Rightarrow> (Some err, w1)
              | (None, w1, existing1) \<Rightarrow> seed_auto r w1 existing1 (card existing1)))"

section \<open>The verification routine\<close>

definition verifySeedData_to :: "nat \<Rightarrow> RedisRepository \<Rightarrow> env \<Rightarrow> failure option" where
  "verifySeedData_to target r w =
     (case countProducts w (int target) of
        Inl err \<Rightarrow> Some err
      | Inr n \<Rightarrow>
          if n < target
          then Some (Error (''insufficient seed data: have '' @ fmt_d (int n)
                 @ '' products, expected at least '' @ fmt_d (int target)))
          else
            (case sampleProductID w of
               Inl err \<Rightarrow> Some err
             | Inr sampleID \<Rightarrow>
                 if sampleID = [] then Some (Error ''no products found after seeding'')
                 else
                   (case GetProduct r w sampleID of
                      Inl err \<Rightarrow>
                        Some (wrap (''failed to retrieve sample product '' @ sampleID @ '': '') err)
                    | Inr product \<Rightarrow> None)))"

definition verifySeedData :: "RedisRepository \<Rightarrow> env \<Rightarrow> failure option" where
  "verifySeedData = verifySeedData_to targetSeedProducts"


section \<open>Sequences of operations\<close>

text \<open>
  The operations of the core, and the collaborators after a sequence of them. A seeding run
  of the large-catalog variant that does not return has no successor state.
\<close>

datatype operation =
    OpCreate Product
  | OpGet string
  | OpList int32 int32 string string
  | OpSeed nat "draw list"
  | OpSeedSmall

fun exec :: "RedisRepository \<Rightarrow> env \<Rightarrow> operation \<Rightarrow> env option" where
  "exec r w (OpCreate product) = Some (snd (snd (CreateProduct r w product)))"
| "exec r w (OpGet pid) = (case GetProduct r w pid of Inl e \<Rightarrow> Some w | Inr p \<Rightarrow> Some w)"
| "exec r w (OpList page pageSize category searchQuery) =
     (case ListProducts r w page pageSize category searchQuery of
        Inl e \<Rightarrow> Some w | Inr res \<Rightarrow> Some w)"
| "exec r w (OpSeed target draws) =
     (case seedData_to target r w draws of None \<Rightarrow> None | Some (err, w1) \<Rightarrow> Some w1)"
| "exec r w OpSeedSmall = Some (snd (seedData_small r w))"

fun run :: "RedisRepository \<Rightarrow> env \<Rightarrow> operation list \<Rightarrow> env option" where
  "run r w [] = Some w"
| "run r w (operation # ops) =
     (case exec r w operation of None \<Rightarrow> None | Some w1 \<Rightarrow> run r w1 ops)"

text \<open>The key a \<^verbatim>\<open>CreateProduct\<close> writes: the key of the ID it is given or assigns.\<close>

definition create_key :: "env \<Rightarrow> Product \<Rightarrow> string" where
  "create_key w product = keyFor (ID (fst (assign_defaults w product)))"

text \<open>Whether some \<^verbatim>\<open>CreateProduct\<close> of the sequence is given, or assigns, the ID of \<open>key\<close>.\<close>

fun creates_key :: "RedisRepository \<Rightarrow> env \<Rightarrow> operation list \<Rightarrow> string \<Rightarrow> bool" where
  "creates_key r w [] key = False"
| "creates_key r w (operation # ops) key =
     (if (case operation of OpCreate product \<Rightarrow> create_key w product = key | _ \<Rightarrow> False)
      then True
      else (case exec r w operation of None \<Rightarrow> False | Some w1 \<Rightarrow> creates_key r w1 ops key))"

section \<open>The JSON form of a product\<close>

text \<open>
  \<^verbatim>\<open>encoding/json\<close> is not code of the repository; what it does to a \<^verbatim>\<open>Product\<close> is fixed by
  the struct tags of the source (\<^verbatim>\<open>id\<close>, \<^verbatim>\<open>name\<close>, \<^verbatim>\<open>description\<close>, \<^verbatim>\<open>price\<close>, \<^verbatim>\<open>category\<close>,
  \<^verbatim>\<open>stock\<close>, \<^verbatim>\<open>created_at\<close>) and by the documented behaviour of the package: a string is
  written as valid UTF-8, every byte that does not begin a valid sequence becoming the
  replacement character U+FFFD; a time is written in RFC 3339 form, which holds the instant
  and no monotonic reading, and only for the years 0 to 9999; a field absent from the object
  keeps its zero value when a record is read.

  \<open>utf8_width\<close> is the width of the UTF-8 sequence at the head of a string, \<open>0\<close> when the
  head byte begins none (the \<^verbatim>\<open>RuneError\<close> of width 1 of \<^verbatim>\<open>unicode/utf8\<close>).
\<close>

definition is_cont :: "char \<Rightarrow> bool" where
  "is_cont c = (128 \<le> (of_char c :: nat) \<and> (of_char c :: nat) < 192)"

definition second_ok :: "nat \<Rightarrow> char \<Rightarrow> bool" where
  "second_ok n b =
     (if n = 224 then 160 \<le> (of_char b :: nat) \<and> (of_char b :: nat) < 192
      else if n = 237 then 128 \<le> (of_char b :: nat) \<and> (of_char b :: nat) < 160
      else if n = 240 then 144 \<le> (of_char b :: nat) \<and> (of_char b :: nat) < 192
      else if n = 244 then 128 \<le> (of_char b :: nat) \<and> (of_char b :: nat) < 144
      else is_cont b)"

fun utf8_width :: "string \<Rightarrow> nat" where
  "utf8_width [] = 0"
| "utf8_width (a # s) =
     (if (of_char a :: nat) < 128 then 1
      else if 194 \<le> (of_char a :: nat) \<and> (of_char a :: nat) < 224 then
        (case s of b # s1 \<Rightarrow> if is_cont b then 2 else 0 | [] \<Rightarrow> 0)
      else if 224 \<le> (of_char a :: nat) \<and> (of_char a :: nat) < 240 then
        (case s of
           b # c # s1 \<Rightarrow> if second_ok (of_char a) b \<and> is_cont c then 3 else 0
         | _ \<Rightarrow> 0)
      else if 240 \<le> (of_char a :: nat) \<and> (of_char a :: nat) < 245 then
        (case s of
           b # c # d # s1 \<Rightarrow>
             if second_ok (of_char a) b \<and> is_cont c \<and> is_cont d then 4 else 0
         | _ \<Rightarrow> 0)
      else 0)"

definition replacement_char :: string where
  "replacement_char = [char_of (239 :: nat), char_of (191 :: nat), char_of (189 :: nat)]"

function coerce_utf8 :: "string \<Rightarrow> string" where
  "coerce_utf8 s =
     (if s = [] then []
      else if utf8_width s = 0 then replacement_char @ coerce_utf8 (tl s)
      else take (utf8_width s) s @ coerce_utf8 (drop (utf8_width s) s))"
  by pat_completeness auto
termination
  by (relation "measure length") (auto simp: neq_Nil_conv)

declare coerce_utf8.simps [simp del]



text \<open>
  The JSON object of a product: the values of its fields under their tags. A JSON string in
  RFC 3339 form is kept as the instant it denotes (\<open>JTime\<close>); the text layer of JSON
  (escapes, number syntax) is not modelled.
\<close>

datatype json = JString string | JNumber real | JTime int

definition encode_Product :: "Product \<Rightarrow> string + (string \<times> json) list" where
  "encode_Product p =
     (if instant (CreatedAt p) < - 62167219200000000000
      then Inl ''Time.MarshalJSON: year outside of range [0,9999]''
      else if 253402300800000000000 \<le> instant (CreatedAt p)
      then Inl ''Time.MarshalJSON: year outside of range [0,9999]''
      else Inr [(''id'', JString (coerce_utf8 (ID p))),
                (''name'', JString (coerce_utf8 (Name p))),
                (''description'', JString (coerce_utf8 (Description p))),
                (''price'', JNumber (Price p)),
                (''category'', JString (coerce_utf8 (Category p))),
                (''stock'', JNumber (of_int (sint (Stock p)))),
                (''created_at'', JTime (instant (CreatedAt p)))])"








section \<open>The identifiers in the store\<close>

text \<open>
  The set of existing product IDs of a store: its product keys without the prefix. A store
  \<open>grows\<close> into another when the second is the first with records added at the end, with
  the same answers of the scan commands, and its keys are as distinct as they were.
\<close>

definition product_ids :: "env \<Rightarrow> string set" where
  "product_ids w = (\<lambda>key. TrimPrefix key productsKeyPrefix) ` set (product_keys w)"

definition grows :: "env \<Rightarrow> env \<Rightarrow> bool" where
  "grows w w1 \<longleftrightarrow>
     (\<exists>added. kv w1 = kv w @ added)
     \<and> scan_fault w1 = scan_fault w \<and> keys_fault w1 = keys_fault w
     \<and> (if distinct (map fst (kv w)) then distinct (map fst (kv w1)) else True)"

section \<open>A concrete store\<close>

text \<open>
  A store for evaluating the operations at concrete inputs: the five base records, stamped
  with one time, under their keys; no command fails; the codec writes a record as its ID
  and name and reads back the records of the table and one further record.
\<close>

definition fixture_time :: time where
  "fixture_time = \<lparr>instant = 1700000000000000000, monotonic = None\<rparr>"

definition fixture_table :: "Product list" where
  "fixture_table = map (\<lambda>p. p\<lparr>CreatedAt := fixture_time\<rparr>) seedProducts"

definition fixture_encode :: "Product \<Rightarrow> string" where
  "fixture_encode p = ID p @ ''|'' @ Name p"

definition fixture_new :: Product where
  "fixture_new =
     \<lparr>ID = ''1700000000000000000'', Name = ''Desk Lamp'', Description = ''LED desk lamp'',
      Price = 24.5, Category = ''Home'', Stock = 12, CreatedAt = fixture_time\<rparr>"

definition fixture_decode :: "string \<Rightarrow> string + Product" where
  "fixture_decode data =
     (case find (\<lambda>p. fixture_encode p = data) (fixture_table @ [fixture_new]) of
        Some p \<Rightarrow> Inr p
      | None \<Rightarrow> Inl ''invalid character'')"

definition fixture_env :: env where
  "fixture_env =
     \<lparr>kv = map (\<lambda>p. (keyFor (ID p), fixture_encode p)) fixture_table,
      get_fault = (\<lambda>key. None), set_fault = (\<lambda>key. None), keys_fault = None,
      scan_fault = (\<lambda>cursor. None), index_fault = (\<lambda>key. None),
      search_reply = (\<lambda>q. Inr ([], 0)), index_docs = [],
      json_Marshal = (\<lambda>p. Inr (fixture_encode p)), json_Unmarshal = fixture_decode,
      clock = (\<lambda>n. fixture_time), ticks = 0, logs = []\<rparr>"

definition fixture_repo :: RedisRepository where
  "fixture_repo = \<lparr>search_present = True, indexName = defaultIndexName, searchEnabled = True\<rparr>"





text \<open>
  A store of five records that are not base records, and one draw of the random source.
\<close>

definition foreign_env :: env where
  "foreign_env = fixture_env\<lparr>kv := map (\<lambda>pid. (keyFor pid, pid)) [''a'', ''b'', ''c'', ''d'', ''e'']\<rparr>"

definition fixture_draw :: draw where
  "fixture_draw = \<lparr>d_uuid = ''0f8fad5b-d9cb-469f'', d_name = ''Desk Lamp'',
     d_description = ''LED desk lamp'', d_price = 24.5, d_category = ''Home'', d_stock = 12\<rparr>"

text \<open>
  Two records for sequences of operations: one that is given the ID of a base record, and
  one that is given an ID no record has.
\<close>

definition overwriting :: Product where
  "overwriting = \<lparr>ID = ''seed-1'', Name = ''Replaced'', Description = [], Price = 1,
     Category = ''Electronics'', Stock = 1, CreatedAt = fixture_time\<rparr>"

definition fixture_lamp :: Product where
  "fixture_lamp = \<lparr>ID = ''lamp-1'', Name = ''Desk Lamp'', Description = ''LED desk lamp'',
     Price = 24.5, Category = ''Home'', Stock = 12, CreatedAt = fixture_time\<rparr>"


section \<open>Properties of pagination\<close>

lemma ListProducts_scan_path:
  assumes "\<not> useSearch r searchQuery" and "client_Keys w = Inr allKeys"
  shows "ListProducts r w page pageSize category searchQuery =
         paginate (scan_filter w category searchQuery allKeys) page pageSize"
  using assms by (simp add: ListProducts_def)

lemma ListProducts_indexed_path:
  assumes "useSearch r searchQuery"
  shows "ListProducts r w page pageSize category searchQuery =
         (case search_reply w (search_query page pageSize category searchQuery) of
            Inl e \<Rightarrow> Inl (Error (''search failed: '' @ e))
          | Inr (docs, totalResults) \<Rightarrow> Inr (fetch_docs w docs, word_of_int totalResults))"
  using assms by (simp add: ListProducts_def)

lemma paginate_defaults:
  "paginate filtered page pageSize =
   paginate filtered (if sint page < 1 then 1 else page)
     (if sint pageSize \<le> 0 then 10 else pageSize)"
  by (simp add: paginate_def Let_def)

text \<open>
  C2. The claim asks for the defaulting of \<open>page\<close> and \<open>pageSize\<close> on both paths. The scan
  path defaults them (\<open>paginate_defaults\<close>), the indexed path does not: with \<open>page = 0\<close> and
  \<open>pageSize = 5\<close> the index is asked for offset \<open>-5\<close>, and with \<open>pageSize = 0\<close> for a limit
  of \<open>0\<close>, where the claim has offset \<open>0\<close> and limit \<open>10\<close>.
\<close>

theorem ListProducts_indexed_query_not_defaulted:
  "search_query 0 5 [] ''laptop'' =
     \<lparr>q_raw = ''laptop'', q_sort_field = ''price'', q_sort_ascending = False,
      q_offset = - 5, q_num = 5\<rparr>
   \<and> search_query 1 0 [] ''laptop'' =
     \<lparr>q_raw = ''laptop'', q_sort_field = ''price'', q_sort_ascending = False,
      q_offset = 0, q_num = 0\<rparr>"
  by (simp add: search_query_def)

text \<open>
  C3. The claim asks that every page beyond the last is empty and carries the total. The
  offset \<open>(page - 1) * pageSize\<close> is multiplied in 32 bits: on the five base records, page
  \<open>2147483647\<close> of size \<open>100\<close> has the offset \<open>-200\<close> and the slice expression panics, and page
  \<open>67108865\<close> of size \<open>64\<close> has the offset \<open>0\<close> and is the first page again.
\<close>

theorem paginate_beyond_last_page_overflow:
  "paginate seedProducts 2147483647 100 = Inl (Panic ''slice bounds out of range'')
   \<and> paginate seedProducts 67108865 64 = Inr (seedProducts, 5)"
  by (simp add: paginate_def seedProducts_def go_slice_def Let_def)

text \<open>
  C10. The claim asks that every call with a record passing the filter returns a contiguous
  slice of at most \<open>pageSize\<close> records. On the store of the five base records, page \<open>3\<close> of
  size \<open>1073741824\<close> returns nothing: the 32-bit offset is \<open>-2147483648\<close> and the slice
  expression panics. (The defect is the one of C3.)
\<close>

theorem ListProducts_scan_panics_on_wrapped_offset:
  "ListProducts fixture_repo fixture_env 3 1073741824 [] [] =
     Inl (Panic ''slice bounds out of range'')"
  by code_simp

section \<open>Properties of the scan filter\<close>

lemma HasPrefix_prefix: "HasPrefix s p \<longleftrightarrow> prefix p s"
  unfolding HasPrefix_def prefix_def
  by (metis append_eq_conv_conj append_take_drop_id)

lemma Contains_sublist: "Contains s substr \<longleftrightarrow> sublist substr s"
  by (induction s) (auto simp: HasPrefix_prefix sublist_Cons_right)

lemma scan_filter_step:
  assumes "client_Get w key = Value data" and "json_Unmarshal w data = Inr q"
  shows "scan_filter w category searchQuery (key # keys) =
     (if (category = [] \<or> Category q = category)
         \<and> (searchQuery = [] \<or> sublist (ToLower searchQuery) (ToLower (Name q))
              \<or> sublist (ToLower searchQuery) (ToLower (Description q)))
      then q # scan_filter w category searchQuery keys
      else scan_filter w category searchQuery keys)"
  using assms by (simp add: Contains_sublist)

lemma scan_filter_set:
  "p \<in> set (scan_filter w category searchQuery keys) \<longleftrightarrow>
     (\<exists>key \<in> set keys. \<exists>data. client_Get w key = Value data
        \<and> json_Unmarshal w data = Inr p)
     \<and> (category = [] \<or> Category p = category)
     \<and> (searchQuery = [] \<or> sublist (ToLower searchQuery) (ToLower (Name p))
           \<or> sublist (ToLower searchQuery) (ToLower (Description p)))"
proof -
  define K where "K (x::Product) \<longleftrightarrow> (category = [] \<or> Category x = category)
     \<and> (searchQuery = [] \<or> sublist (ToLower searchQuery) (ToLower (Name x))
           \<or> sublist (ToLower searchQuery) (ToLower (Description x)))" for x
  define F where "F ks \<longleftrightarrow> (\<exists>key \<in> set ks. \<exists>data. client_Get w key = Value data
        \<and> json_Unmarshal w data = Inr p)" for ks
  have "p \<in> set (scan_filter w category searchQuery keys) \<longleftrightarrow> F keys \<and> K p"
  proof (induction keys)
    case Nil
    then show ?case by (simp add: F_def)
  next
    case (Cons key keys)
    show ?case
    proof (cases "client_Get w key")
      case (Value data)
      show ?thesis
      proof (cases "json_Unmarshal w data")
        case (Inl e)
        have "F (key # keys) \<longleftrightarrow> F keys" using Value Inl by (simp add: F_def)
        with Value Inl Cons show ?thesis by simp
      next
        case (Inr q)
        have s: "scan_filter w category searchQuery (key # keys) =
            (if K q then q # scan_filter w category searchQuery keys
             else scan_filter w category searchQuery keys)"
          unfolding K_def by (rule scan_filter_step [OF Value Inr])
        have f: "F (key # keys) \<longleftrightarrow> p = q \<or> F keys"
          using Value Inr by (auto simp: F_def)
        show ?thesis
          unfolding s f using Cons by (cases "K q") auto
      qed
    next
      case RedisNil
      have "F (key # keys) \<longleftrightarrow> F keys" using RedisNil by (simp add: F_def)
      with RedisNil Cons show ?thesis by simp
    next
      case (Fail e)
      have "F (key # keys) \<longleftrightarrow> F keys" using Fail by (simp add: F_def)
      with Fail Cons show ?thesis by simp
    qed
  qed
  then show ?thesis unfolding K_def F_def .
qed

lemma go_slice_set: "go_slice s lo hi = Inr ys \<Longrightarrow> set ys \<subseteq> set s"
  by (auto simp: go_slice_def split: if_splits dest: in_set_takeD in_set_dropD)

lemma paginate_set:
  "paginate filtered page pageSize = Inr (ps, n) \<Longrightarrow> set ps \<subseteq> set filtered"
  by (auto simp: paginate_def Let_def split: if_splits sum.splits dest!: go_slice_set)

text \<open>
  C7. On the scan path a record is in the filtered sequence exactly when it is the decoded
  value of a key that could be read, its category is the requested one (if one is
  requested) and the lower-cased query (if there is one) is a substring of its lower-cased
  name or description. Hence a scan-path listing with a category returns no record of
  another category.
\<close>

theorem scan_filter_membership:
  "(p \<in> set (scan_filter w category searchQuery keys) \<longleftrightarrow>
      (\<exists>key data. key \<in> set keys \<and> client_Get w key = Value data
         \<and> json_Unmarshal w data = Inr p)
      \<and> (category \<noteq> [] \<longrightarrow> Category p = category)
      \<and> (searchQuery \<noteq> [] \<longrightarrow>
            sublist (ToLower searchQuery) (ToLower (Name p))
            \<or> sublist (ToLower searchQuery) (ToLower (Description p))))
   \<and> (\<not> useSearch r searchQuery \<and> category \<noteq> []
        \<and> ListProducts r w page pageSize category searchQuery = Inr (products, n)
       \<longrightarrow> (\<forall>q \<in> set products. Category q = category))"
proof (intro conjI impI ballI)
  show "p \<in> set (scan_filter w category searchQuery keys) \<longleftrightarrow>
      (\<exists>key data. key \<in> set keys \<and> client_Get w key = Value data
         \<and> json_Unmarshal w data = Inr p)
      \<and> (category \<noteq> [] \<longrightarrow> Category p = category)
      \<and> (searchQuery \<noteq> [] \<longrightarrow>
            sublist (ToLower searchQuery) (ToLower (Name p))
            \<or> sublist (ToLower searchQuery) (ToLower (Description p)))"
    unfolding scan_filter_set by blast
next
  fix q
  assume a: "\<not> useSearch r searchQuery \<and> category \<noteq> []
      \<and> ListProducts r w page pageSize category searchQuery = Inr (products, n)"
    and q: "q \<in> set products"
  from a have ns: "\<not> useSearch r searchQuery" and cat: "category \<noteq> []"
    and lp: "ListProducts r w page pageSize category searchQuery = Inr (products, n)"
    by simp_all
  from ns lp obtain allKeys where keys: "client_Keys w = Inr allKeys"
    by (cases "client_Keys w") (auto simp: ListProducts_def)
  from lp have "paginate (scan_filter w category searchQuery allKeys) page pageSize
      = Inr (products, n)"
    by (simp add: ListProducts_scan_path [OF ns keys])
  from paginate_set [OF this] q
  have "q \<in> set (scan_filter w category searchQuery allKeys)" by blast
  with cat show "Category q = category"
    unfolding scan_filter_set by blast
qed

theorem scan_filter_membership_witness:
  "\<not> useSearch (fixture_repo\<lparr>searchEnabled := False\<rparr>) ''LAPTOP''
   \<and> ListProducts (fixture_repo\<lparr>searchEnabled := False\<rparr>) fixture_env 1 10 ''Electronics'' ''LAPTOP''
       = Inr ([hd fixture_table], 1)
   \<and> hd fixture_table \<in> set (scan_filter fixture_env ''Electronics'' ''LAPTOP'' (product_keys fixture_env))
   \<and> Category (hd fixture_table) = ''Electronics''
   \<and> sublist (ToLower ''LAPTOP'') (ToLower (Name (hd fixture_table)))"
proof -
  have e: "\<not> useSearch (fixture_repo\<lparr>searchEnabled := False\<rparr>) ''LAPTOP''"
    by code_simp
  have l: "ListProducts (fixture_repo\<lparr>searchEnabled := False\<rparr>) fixture_env 1 10 ''Electronics'' ''LAPTOP''
       = Inr ([hd fixture_table], 1)"
    by code_simp
  have m: "hd fixture_table \<in> set (scan_filter fixture_env ''Electronics'' ''LAPTOP'' (product_keys fixture_env))"
    by code_simp
  have s: "sublist (ToLower ''LAPTOP'') (ToLower (Name (hd fixture_table)))"
    by code_simp
  from scan_filter_membership [of "hd fixture_table" fixture_env "''Electronics''" "''LAPTOP''"
      "product_keys fixture_env" "fixture_repo\<lparr>searchEnabled := False\<rparr>" 1 10 "[hd fixture_table]" 1]
    e l m s
  show ?thesis by simp
qed

section \<open>Properties of GetProduct and CreateProduct\<close>

lemma assign_defaults_env:
  assumes "assign_defaults w p = (p2, w2)"
  shows "kv w2 = kv w" "get_fault w2 = get_fault w" "set_fault w2 = set_fault w"
    "json_Marshal w2 = json_Marshal w" "json_Unmarshal w2 = json_Unmarshal w"
    "index_fault w2 = index_fault w" "logs w2 = logs w" "index_docs w2 = index_docs w"
    "keys_fault w2 = keys_fault w" "scan_fault w2 = scan_fault w"
  using assms
  by (auto simp: assign_defaults_def time_Now_def Let_def split: if_splits prod.splits)

lemma assign_defaults_index_fault:
  "assign_defaults (w\<lparr>index_fault := f\<rparr>) p =
     (fst (assign_defaults w p), (snd (assign_defaults w p))\<lparr>index_fault := f\<rparr>)"
  by (simp add: assign_defaults_def time_Now_def Let_def split: prod.splits)

lemma map_of_store_put:
  "map_of (store_put key data kvs) k = (if k = key then Some data else map_of kvs k)"
  by (induction kvs) auto

text \<open>
  C9. When the store answers the read and the key derived from the ID is absent,
  \<^verbatim>\<open>GetProduct\<close> returns the not-found error: not the error of a failed read and not the
  error of a failed decoding. A read that fails returns an error with another message, so
  the two outcomes are distinct.
\<close>

theorem GetProduct_absent_NotFound:
  assumes "get_fault w (keyFor pid) = None" and "map_of (kv w) (keyFor pid) = None"
  shows "GetProduct r w pid = Inl (Error (''product not found: '' @ pid))
     \<and> (\<forall>e. GetProduct r w pid \<noteq> Inl (Error (''failed to get product: '' @ e)))
     \<and> (\<forall>e. GetProduct r w pid \<noteq> Inl (Error (''failed to unmarshal product: '' @ e)))
     \<and> (\<forall>w1 e. get_fault w1 (keyFor pid) = Some e \<longrightarrow>
           GetProduct r w1 pid = Inl (Error (''failed to get product: '' @ e))
           \<and> GetProduct r w1 pid \<noteq> GetProduct r w pid)"
  using assms by (simp add: GetProduct_def client_Get_def)

theorem GetProduct_absent_NotFound_witness:
  "get_fault fixture_env (keyFor ''missing-id'') = None
   \<and> map_of (kv fixture_env) (keyFor ''missing-id'') = None
   \<and> GetProduct fixture_repo fixture_env ''missing-id'' = Inl (Error ''product not found: missing-id'')
   \<and> GetProduct fixture_repo (fixture_env\<lparr>get_fault := (\<lambda>key. Some ''i/o timeout'')\<rparr>) ''missing-id''
       = Inl (Error ''failed to get product: i/o timeout'')"
proof -
  have h1: "get_fault fixture_env (keyFor ''missing-id'') = None"
    by (simp add: fixture_env_def)
  have h2: "map_of (kv fixture_env) (keyFor ''missing-id'') = None"
    by code_simp
  have h3: "get_fault (fixture_env\<lparr>get_fault := (\<lambda>key. Some ''i/o timeout'')\<rparr>) (keyFor ''missing-id'')
      = Some ''i/o timeout''"
    by simp
  from GetProduct_absent_NotFound [OF h1 h2, of fixture_repo] h1 h2 h3
  show ?thesis by auto
qed

lemma CreateProduct_writes:
  assumes "assign_defaults w product0 = (product, w1)"
    and "json_Marshal w product = Inr data"
    and "set_fault w (keyFor (ID product)) = None"
  shows "\<exists>w2. CreateProduct r w product0 = (None, product, w2)
           \<and> kv w2 = store_put (keyFor (ID product)) data (kv w)"
  using assms(2,3) assign_defaults_env [OF assms(1)]
  by (auto simp: CreateProduct_def assms(1) client_Set_def search_Index_def Let_def
      split: option.splits)

lemma UnixNano_in_range:
  "- (2 ^ 63) \<le> instant t \<Longrightarrow> instant t < 2 ^ 63 \<Longrightarrow> UnixNano t = instant t"
  unfolding UnixNano_def sint_sbintrunc'
  by (rule signed_take_bit_int_eq_self) simp_all

lemma digit_chars:
  "char_of (48::nat) = CHR ''0''" "char_of (49::nat) = CHR ''1''" "char_of (50::nat) = CHR ''2''"
  "char_of (51::nat) = CHR ''3''" "char_of (52::nat) = CHR ''4''" "char_of (53::nat) = CHR ''5''"
  "char_of (54::nat) = CHR ''6''" "char_of (55::nat) = CHR ''7''" "char_of (56::nat) = CHR ''8''"
  "char_of (57::nat) = CHR ''9''"
  by code_simp+

lemma fixture_fmt: "fmt_d (UnixNano fixture_time) = ''1700000000000000000''"
proof -
  have "UnixNano fixture_time = instant fixture_time"
    by (rule UnixNano_in_range) (simp_all add: fixture_time_def)
  moreover have "fmt_d (instant fixture_time) = ''1700000000000000000''"
    by (simp add: fixture_time_def fmt_d_def show_nat.simps digit_chars)
  ultimately show ?thesis by simp
qed

lemma fixture_assign:
  "assign_defaults fixture_env (fixture_new\<lparr>ID := [], CreatedAt := zeroTime\<rparr>)
     = (fixture_new, fixture_env\<lparr>ticks := 2\<rparr>)"
  by (simp add: assign_defaults_def time_Now_def fixture_env_def fixture_new_def
      IsZero_def zeroTime_def Let_def fixture_fmt)

lemma fixture_codec:
  "json_Marshal fixture_env fixture_new = Inr (fixture_encode fixture_new)"
  "json_Unmarshal fixture_env (fixture_encode fixture_new) = Inr fixture_new"
proof -
  show "json_Marshal fixture_env fixture_new = Inr (fixture_encode fixture_new)"
    by (simp add: fixture_env_def)
  have "fixture_decode (fixture_encode fixture_new) = Inr fixture_new"
    by (simp add: fixture_decode_def fixture_encode_def fixture_table_def seedProducts_def
        fixture_new_def)
  then show "json_Unmarshal fixture_env (fixture_encode fixture_new) = Inr fixture_new"
    by (simp add: fixture_env_def)
qed

text \<open>
  C8. Whatever the index answers, \<^verbatim>\<open>CreateProduct\<close> returns \<^verbatim>\<open>nil\<close> once the record is
  encoded and the store write succeeds: the record is under its key, and when the index
  write fails the failure is logged, the index is left as it was and the stored record is
  the same.
\<close>

theorem CreateProduct_index_failure_is_not_an_error:
  assumes "assign_defaults w product0 = (product, w1)"
    and "json_Marshal w product = Inr data"
    and "set_fault w (keyFor (ID product)) = None"
  shows "\<forall>fault. \<exists>w2.
           CreateProduct r (w\<lparr>index_fault := fault\<rparr>) product0 = (None, product, w2)
           \<and> kv w2 = store_put (keyFor (ID product)) data (kv w)
           \<and> (\<forall>e. searchEnabled r \<and> search_present r \<and> fault (keyFor (ID product)) = Some e
                 \<longrightarrow> logs w2 = logs w @ [''Failed to index product'']
                     \<and> index_docs w2 = index_docs w)"
proof
  fix fault
  from assms(1) have a: "assign_defaults (w\<lparr>index_fault := fault\<rparr>) product0
      = (product, w1\<lparr>index_fault := fault\<rparr>)"
    by (simp add: assign_defaults_index_fault)
  note e = assign_defaults_env [OF assms(1)]
  show "\<exists>w2. CreateProduct r (w\<lparr>index_fault := fault\<rparr>) product0 = (None, product, w2)
           \<and> kv w2 = store_put (keyFor (ID product)) data (kv w)
           \<and> (\<forall>e. searchEnabled r \<and> search_present r \<and> fault (keyFor (ID product)) = Some e
                 \<longrightarrow> logs w2 = logs w @ [''Failed to index product'']
                     \<and> index_docs w2 = index_docs w)"
    using assms(2,3) e
    by (auto simp: CreateProduct_def a client_Set_def search_Index_def Let_def
        split: option.splits)
qed

theorem CreateProduct_index_failure_is_not_an_error_witness:
  "assign_defaults fixture_env (fixture_new\<lparr>ID := [], CreatedAt := zeroTime\<rparr>)
     = (fixture_new, fixture_env\<lparr>ticks := 2\<rparr>)
   \<and> json_Marshal fixture_env fixture_new = Inr (fixture_encode fixture_new)
   \<and> set_fault fixture_env (keyFor (ID fixture_new)) = None
   \<and> searchEnabled fixture_repo \<and> search_present fixture_repo
   \<and> (\<exists>w2. CreateProduct fixture_repo
              (fixture_env\<lparr>index_fault := (\<lambda>key. Some ''index unavailable'')\<rparr>)
              (fixture_new\<lparr>ID := [], CreatedAt := zeroTime\<rparr>) = (None, fixture_new, w2)
          \<and> map_of (kv w2) (keyFor (ID fixture_new)) = Some (fixture_encode fixture_new)
          \<and> logs w2 = [''Failed to index product''])"
proof -
  have h3: "set_fault fixture_env (keyFor (ID fixture_new)) = None"
    by (simp add: fixture_env_def)
  have r: "searchEnabled fixture_repo \<and> search_present fixture_repo"
    by (simp add: fixture_repo_def)
  have l: "logs fixture_env = []" by (simp add: fixture_env_def)
  from CreateProduct_index_failure_is_not_an_error
         [OF fixture_assign fixture_codec(1) h3, of fixture_repo]
  obtain w2 where
    c: "CreateProduct fixture_repo
          (fixture_env\<lparr>index_fault := (\<lambda>key. Some ''index unavailable'')\<rparr>)
          (fixture_new\<lparr>ID := [], CreatedAt := zeroTime\<rparr>) = (None, fixture_new, w2)"
    and k: "kv w2 = store_put (keyFor (ID fixture_new)) (fixture_encode fixture_new)
              (kv fixture_env)"
    and i: "\<forall>e. searchEnabled fixture_repo \<and> search_present fixture_repo
              \<and> (\<lambda>key. Some ''index unavailable'') (keyFor (ID fixture_new)) = Some e
            \<longrightarrow> logs w2 = logs fixture_env @ [''Failed to index product'']
                \<and> index_docs w2 = index_docs fixture_env"
    by (elim allE [of _ "\<lambda>key. Some ''index unavailable''"] exE conjE)
  from i r l have g: "logs w2 = [''Failed to index product'']" by simp
  from k have m: "map_of (kv w2) (keyFor (ID fixture_new)) = Some (fixture_encode fixture_new)"
    by (simp add: map_of_store_put)
  from c m g have "\<exists>w2. CreateProduct fixture_repo
          (fixture_env\<lparr>index_fault := (\<lambda>key. Some ''index unavailable'')\<rparr>)
          (fixture_new\<lparr>ID := [], CreatedAt := zeroTime\<rparr>) = (None, fixture_new, w2)
        \<and> map_of (kv w2) (keyFor (ID fixture_new)) = Some (fixture_encode fixture_new)
        \<and> logs w2 = [''Failed to index product'']"
    by (intro exI [of _ w2] conjI)
  with fixture_assign fixture_codec(1) h3 r show ?thesis
    by (intro conjI) simp_all
qed

section \<open>The round trip through the store\<close>





lemma assign_defaults_given:
  "ID p \<noteq> [] \<Longrightarrow> \<not> IsZero (CreatedAt p) \<Longrightarrow> assign_defaults w p = (p, w)"
  by (simp add: assign_defaults_def)








lemma fixture_new_encodes: "\<exists>obj. encode_Product (fixture_new\<lparr>Name := nm, CreatedAt := \<lparr>instant = 1700000000000000000, monotonic = m\<rparr>\<rparr>) = Inr obj"
  by (simp add: encode_Product_def)




section \<open>Properties of seeding\<close>

lemma keyFor_HasPrefix: "HasPrefix (keyFor pid) productsKeyPrefix"
  by (simp add: keyFor_def HasPrefix_def)

lemma TrimPrefix_keyFor: "TrimPrefix (keyFor pid) productsKeyPrefix = pid"
  by (simp add: TrimPrefix_def keyFor_HasPrefix) (simp add: keyFor_def)

lemma keyFor_TrimPrefix:
  "HasPrefix key productsKeyPrefix \<Longrightarrow> keyFor (TrimPrefix key productsKeyPrefix) = key"
  by (simp add: TrimPrefix_def keyFor_def HasPrefix_def) (metis append_take_drop_id)

lemma keyFor_inj: "keyFor a = keyFor b \<Longrightarrow> a = b"
  by (simp add: keyFor_def)

lemma fresh_key:
  assumes "pid \<notin> product_ids w"
  shows "keyFor pid \<notin> fst ` set (kv w)"
proof
  assume "keyFor pid \<in> fst ` set (kv w)"
  then have "keyFor pid \<in> set (product_keys w)"
    by (simp add: product_keys_def keyFor_HasPrefix)
  then have "TrimPrefix (keyFor pid) productsKeyPrefix \<in> product_ids w"
    unfolding product_ids_def by (rule imageI)
  with assms show False by (simp add: TrimPrefix_keyFor)
qed

lemma store_put_fresh:
  "key \<notin> fst ` set kvs \<Longrightarrow> store_put key data kvs = kvs @ [(key, data)]"
  by (induction kvs) auto

lemma product_ids_append:
  assumes "kv w1 = kv w @ [(keyFor pid, data)]"
  shows "product_ids w1 = insert pid (product_ids w)"
  using assms
  by (simp add: product_ids_def product_keys_def keyFor_HasPrefix TrimPrefix_keyFor)

lemma fst_store_put: "fst ` set (store_put key data kvs) = insert key (fst ` set kvs)"
  by (induction kvs) (force+)

lemma product_ids_put:
  assumes "kv w1 = store_put (keyFor pid) data (kv w)"
  shows "product_ids w1 = insert pid (product_ids w)"
proof -
  have "set (product_keys w1) = insert (keyFor pid) (set (product_keys w))"
    using fst_store_put [of "keyFor pid" data "kv w"]
    by (auto simp: product_keys_def assms keyFor_HasPrefix)
  then show ?thesis
    by (simp add: product_ids_def TrimPrefix_keyFor)
qed

lemma fold_insert_ids:
  "fold (\<lambda>key ex. insert (TrimPrefix key productsKeyPrefix) ex) ks ex
     = ex \<union> (\<lambda>key. TrimPrefix key productsKeyPrefix) ` set ks"
  by (induction ks arbitrary: ex) auto

lemma collect_loop_result:
  assumes "\<And>c. scan_fault w c = None"
  shows "collect_loop w cursor existing =
     Inr (existing \<union> (\<lambda>key. TrimPrefix key productsKeyPrefix) ` set (drop cursor (product_keys w)))"
  using assms
proof (induction w cursor existing rule: collect_loop.induct)
  case (1 w cursor existing)
  let ?f = "\<lambda>key. TrimPrefix key productsKeyPrefix"
  let ?rest = "drop cursor (product_keys w)"
  let ?batch = "take seedScanBatchSize ?rest"
  show ?case
  proof (cases "cursor + seedScanBatchSize < length (product_keys w)")
    case False
    then have "?batch = ?rest" by simp
    with False "1.prems" show ?thesis
      by (subst collect_loop.simps) (simp add: client_Scan_def fold_insert_ids Let_def)
  next
    case True
    have scan: "client_Scan w cursor seedScanBatchSize = Inr (?batch, cursor + seedScanBatchSize)"
      using True "1.prems" by (simp add: client_Scan_def)
    have pos: "0 < seedScanBatchSize" by (simp add: seedScanBatchSize_def)
    then have nz: "cursor + seedScanBatchSize \<noteq> 0" by simp
    have split: "set ?rest = set ?batch \<union> set (drop (cursor + seedScanBatchSize) (product_keys w))"
      by (metis add.commute append_take_drop_id drop_drop set_append)
    have "collect_loop w cursor existing =
        collect_loop w (cursor + seedScanBatchSize) (existing \<union> ?f ` set ?batch)"
      using pos by (subst collect_loop.simps) (simp add: scan fold_insert_ids Let_def)
    also have "\<dots> = Inr ((existing \<union> ?f ` set ?batch)
        \<union> ?f ` set (drop (cursor + seedScanBatchSize) (product_keys w)))"
      using "1.IH" [OF scan refl refl nz] "1.prems" by (simp add: fold_insert_ids)
    also have "\<dots> = Inr (existing \<union> ?f ` set ?rest)"
      unfolding split by (simp add: image_Un Un_assoc)
    finally show ?thesis .
  qed
qed

lemma collectExistingProductIDs_result:
  assumes "\<And>c. scan_fault w c = None"
  shows "collectExistingProductIDs w = Inr (product_ids w)"
  by (simp add: collectExistingProductIDs_def collect_loop_result [OF assms] product_ids_def)

lemma grows_refl: "grows w w"
  by (simp add: grows_def)

lemma grows_trans: "grows w w1 \<Longrightarrow> grows w1 w2 \<Longrightarrow> grows w w2"
  by (auto simp: grows_def)

lemma grows_same_kv:
  "kv w1 = kv w \<Longrightarrow> scan_fault w1 = scan_fault w \<Longrightarrow> keys_fault w1 = keys_fault w
     \<Longrightarrow> grows w w1"
  by (simp add: grows_def)

lemma product_ids_same_kv: "kv w1 = kv w \<Longrightarrow> product_ids w1 = product_ids w"
  by (simp add: product_ids_def product_keys_def)

lemma time_Now_env:
  assumes "time_Now w = (t, w1)"
  shows "kv w1 = kv w" "scan_fault w1 = scan_fault w" "keys_fault w1 = keys_fault w"
  using assms by (auto simp: time_Now_def)

lemma assign_defaults_ID:
  "ID p \<noteq> [] \<Longrightarrow> ID (fst (assign_defaults w p)) = ID p"
  by (simp add: assign_defaults_def time_Now_def Let_def split: prod.splits)

lemma CreateProduct_result:
  assumes a: "assign_defaults w p = (p2, w2)"
  shows "(\<exists>x. CreateProduct r w p = (Some x, p2, w2))
       \<or> (\<exists>data w3. CreateProduct r w p = (None, p2, w3)
             \<and> kv w3 = store_put (keyFor (ID p2)) data (kv w)
             \<and> scan_fault w3 = scan_fault w \<and> keys_fault w3 = keys_fault w)"
proof -
  note env = assign_defaults_env [OF a]
  show ?thesis
  proof (cases "json_Marshal w p2")
    case (Inl x)
    then have "CreateProduct r w p = (Some (Error (''failed to marshal product: '' @ x)), p2, w2)"
      by (simp add: CreateProduct_def a env)
    then show ?thesis by blast
  next
    case (Inr data)
    show ?thesis
    proof (cases "set_fault w (keyFor (ID p2))")
      case (Some x)
      with Inr have "CreateProduct r w p = (Some (Error (''failed to set product: '' @ x)), p2, w2)"
        by (simp add: CreateProduct_def a env client_Set_def)
      then show ?thesis by blast
    next
      case None
      let ?w3 = "w2\<lparr>kv := store_put (keyFor (ID p2)) data (kv w)\<rparr>"
      let ?doc = "\<lparr>doc_id = keyFor (ID p2), doc_name = Name p2,
          doc_description = Description p2, doc_category = Category p2,
          doc_price = Price p2, doc_stock = Stock p2\<rparr>"
      from Inr None have base: "CreateProduct r w p =
          (if searchEnabled r \<and> search_present r
           then (case search_Index ?w3 ?doc of
                   Inl e \<Rightarrow> (None, p2, ?w3\<lparr>logs := logs ?w3 @ [''Failed to index product'']\<rparr>)
                 | Inr w4 \<Rightarrow> (None, p2, w4))
           else (None, p2, ?w3))"
        by (simp add: CreateProduct_def a env client_Set_def Let_def)
      show ?thesis
      proof (cases "searchEnabled r \<and> search_present r")
        case False
        with base have "CreateProduct r w p = (None, p2, ?w3)" by simp
        moreover have "kv ?w3 = store_put (keyFor (ID p2)) data (kv w)
            \<and> scan_fault ?w3 = scan_fault w \<and> keys_fault ?w3 = keys_fault w"
          by (simp add: env)
        ultimately show ?thesis by blast
      next
        case True
        show ?thesis
        proof (cases "index_fault w (keyFor (ID p2))")
          case (Some x)
          let ?w4 = "?w3\<lparr>logs := logs ?w3 @ [''Failed to index product'']\<rparr>"
          from base True Some have "CreateProduct r w p = (None, p2, ?w4)"
            by (simp add: search_Index_def env)
          moreover have "kv ?w4 = store_put (keyFor (ID p2)) data (kv w)
              \<and> scan_fault ?w4 = scan_fault w \<and> keys_fault ?w4 = keys_fault w"
            by (simp add: env)
          ultimately show ?thesis by blast
        next
          case None
          let ?w4 = "?w3\<lparr>index_docs := index_docs ?w3 @ [?doc]\<rparr>"
          from base True None have "CreateProduct r w p = (None, p2, ?w4)"
            by (simp add: search_Index_def env)
          moreover have "kv ?w4 = store_put (keyFor (ID p2)) data (kv w)
              \<and> scan_fault ?w4 = scan_fault w \<and> keys_fault ?w4 = keys_fault w"
            by (simp add: env)
          ultimately show ?thesis by blast
        qed
      qed
    qed
  qed
qed

lemma CreateProduct_effect:
  assumes "CreateProduct r w p = (e, p1, w1)"
  shows "p1 = fst (assign_defaults w p)"
    and "scan_fault w1 = scan_fault w" and "keys_fault w1 = keys_fault w"
    and "e \<noteq> None \<Longrightarrow> kv w1 = kv w"
    and "e = None \<Longrightarrow> \<exists>data. kv w1 = store_put (keyFor (ID p1)) data (kv w)"
proof -
  obtain p2 w2 where a: "assign_defaults w p = (p2, w2)"
    by (cases "assign_defaults w p")
  note env = assign_defaults_env [OF a]
  have "p1 = fst (assign_defaults w p) \<and> scan_fault w1 = scan_fault w
      \<and> keys_fault w1 = keys_fault w \<and> (e \<noteq> None \<longrightarrow> kv w1 = kv w)
      \<and> (e = None \<longrightarrow> (\<exists>data. kv w1 = store_put (keyFor (ID p1)) data (kv w)))"
    using CreateProduct_result [OF a, of r]
  proof (elim disjE exE conjE)
    fix x
    assume "CreateProduct r w p = (Some x, p2, w2)"
    with assms have "e = Some x" "p1 = p2" "w1 = w2" by simp_all
    with a env show ?thesis by simp
  next
    fix data w3
    assume "CreateProduct r w p = (None, p2, w3)"
      and k: "kv w3 = store_put (keyFor (ID p2)) data (kv w)"
      and f: "scan_fault w3 = scan_fault w" "keys_fault w3 = keys_fault w"
    with assms have "e = None" "p1 = p2" "w1 = w3" by simp_all
    with a k f show ?thesis by auto
  qed
  then show "p1 = fst (assign_defaults w p)"
    and "scan_fault w1 = scan_fault w" and "keys_fault w1 = keys_fault w"
    and "e \<noteq> None \<Longrightarrow> kv w1 = kv w"
    and "e = None \<Longrightarrow> \<exists>data. kv w1 = store_put (keyFor (ID p1)) data (kv w)"
    by blast+
qed

lemma map_fst_store_put_distinct:
  "distinct (map fst kvs) \<Longrightarrow> distinct (map fst (store_put key data kvs))"
  by (induction kvs) (auto simp: fst_store_put)

lemma CreateProduct_fresh:
  assumes c: "CreateProduct r w p = (e, p1, w1)"
    and id: "ID p \<noteq> []" and fresh: "ID p \<notin> product_ids w"
  shows "grows w w1" and "ID p1 = ID p"
    and "e = None \<Longrightarrow> product_ids w1 = insert (ID p) (product_ids w)"
    and "e \<noteq> None \<Longrightarrow> product_ids w1 = product_ids w"
proof -
  note eff = CreateProduct_effect [OF c]
  from eff(1) id show i: "ID p1 = ID p" by (simp add: assign_defaults_ID)
  show "grows w w1"
  proof (cases e)
    case (Some x)
    with eff(2,3,4) show ?thesis by (simp add: grows_same_kv)
  next
    case None
    with eff(5) obtain data where k: "kv w1 = store_put (keyFor (ID p1)) data (kv w)"
      by blast
    from fresh_key [OF fresh] k i have "kv w1 = kv w @ [(keyFor (ID p), data)]"
      by (simp add: store_put_fresh)
    moreover from k have "distinct (map fst (kv w)) \<Longrightarrow> distinct (map fst (kv w1))"
      by (simp add: map_fst_store_put_distinct)
    ultimately show ?thesis using eff(2,3) unfolding grows_def by simp
  qed
  show "product_ids w1 = insert (ID p) (product_ids w)" if "e = None"
  proof -
    from eff(5) [OF that] obtain data where "kv w1 = store_put (keyFor (ID p1)) data (kv w)"
      by blast
    then show ?thesis unfolding i by (rule product_ids_put)
  qed
  show "product_ids w1 = product_ids w" if "e \<noteq> None"
    using eff(4) [OF that] by (rule product_ids_same_kv)
qed

lemma stamp_cases:
  obtains seed w0 where
    "(if IsZero (CreatedAt product)
      then (let (t, w') = time_Now w in (product\<lparr>CreatedAt := t\<rparr>, w'))
      else (product, w)) = (seed, w0)"
    and "ID seed = ID product" and "kv w0 = kv w"
    and "scan_fault w0 = scan_fault w" and "keys_fault w0 = keys_fault w"
  by (cases "IsZero (CreatedAt product)") (simp_all add: time_Now_def)

lemma seed_base_invariant:
  assumes "\<forall>p \<in> set ps. ID p \<noteq> []" and "existing = product_ids w"
    and "seed_base msg r w existing ps = (e, w1, ex1)"
  shows "grows w w1 \<and> ex1 = product_ids w1 \<and> (e = None \<longrightarrow> ID ` set ps \<subseteq> ex1)
     \<and> existing \<subseteq> ex1"
  using assms
proof (induction ps arbitrary: w existing)
  case Nil
  then show ?case by (auto simp: grows_refl)
next
  case (Cons product ps)
  show ?case
  proof (cases "ID product \<in> existing")
    case True
    with Cons.prems have "seed_base msg r w existing ps = (e, w1, ex1)" by simp
    from Cons.IH [OF _ Cons.prems(2) this] Cons.prems(1) True show ?thesis by auto
  next
    case False
    obtain seed w0 where
      st: "(if IsZero (CreatedAt product)
            then (let (t, w') = time_Now w in (product\<lparr>CreatedAt := t\<rparr>, w'))
            else (product, w)) = (seed, w0)"
      and sid: "ID seed = ID product" and k0: "kv w0 = kv w"
      and f0: "scan_fault w0 = scan_fault w" "keys_fault w0 = keys_fault w"
      by (rule stamp_cases)
    obtain e2 seed1 w2 where c: "CreateProduct r w0 seed = (e2, seed1, w2)"
      by (cases "CreateProduct r w0 seed")
    have ids0: "product_ids w0 = product_ids w" using k0 by (rule product_ids_same_kv)
    have g0: "grows w w0" using k0 f0 by (rule grows_same_kv)
    from Cons.prems(1) sid have nid: "ID seed \<noteq> []" by simp
    from False Cons.prems(2) sid ids0 have fr: "ID seed \<notin> product_ids w0" by simp
    note cf = CreateProduct_fresh [OF c nid fr]
    have step: "seed_base msg r w existing (product # ps) =
        (case e2 of
           Some err \<Rightarrow> (Some (wrap (msg @ ID product @ '': '') err), w2, existing)
         | None \<Rightarrow> seed_base msg r w2 (insert (ID seed1) existing) ps)"
      using False by (simp add: st c split: option.split)
    show ?thesis
    proof (cases e2)
      case (Some err)
      with step Cons.prems(3) have r: "e = Some (wrap (msg @ ID product @ '': '') err)"
        "w1 = w2" "ex1 = existing" by simp_all
      from cf(4) Some ids0 Cons.prems(2) have "existing = product_ids w2" by simp
      with r grows_trans [OF g0 cf(1)] show ?thesis by simp
    next
      case None
      with step Cons.prems(3)
      have rec: "seed_base msg r w2 (insert (ID seed1) existing) ps = (e, w1, ex1)" by simp
      from cf(3) None ids0 Cons.prems(2) cf(2)
      have inv: "insert (ID seed1) existing = product_ids w2" by simp
      from Cons.prems(1) have ne: "\<forall>p \<in> set ps. ID p \<noteq> []" by simp
      from Cons.IH [OF ne inv rec] cf(2) sid grows_trans [OF g0 cf(1)]
      show ?thesis by (auto intro: grows_trans)
    qed
  qed
qed

lemma collect_loop_sound:
  "collect_loop w cursor existing = Inr res \<Longrightarrow>
     res = existing \<union> (\<lambda>key. TrimPrefix key productsKeyPrefix) ` set (drop cursor (product_keys w))"
proof (induction w cursor existing rule: collect_loop.induct)
  case (1 w cursor existing)
  let ?f = "\<lambda>key. TrimPrefix key productsKeyPrefix"
  let ?rest = "drop cursor (product_keys w)"
  let ?batch = "take seedScanBatchSize ?rest"
  have pos: "0 < seedScanBatchSize" by (simp add: seedScanBatchSize_def)
  show ?case
  proof (cases "scan_fault w cursor")
    case (Some x)
    then have "collect_loop w cursor existing = Inl (Error (''failed to scan product keys: '' @ x))"
      by (subst collect_loop.simps) (simp add: client_Scan_def)
    with "1.prems" show ?thesis by simp
  next
    case None
    show ?thesis
    proof (cases "cursor + seedScanBatchSize < length (product_keys w)")
      case False
      then have "?batch = ?rest" by simp
      with False None have "collect_loop w cursor existing = Inr (existing \<union> ?f ` set ?rest)"
        by (subst collect_loop.simps) (simp add: client_Scan_def fold_insert_ids Let_def)
      with "1.prems" show ?thesis by simp
    next
      case True
      have scan: "client_Scan w cursor seedScanBatchSize = Inr (?batch, cursor + seedScanBatchSize)"
        using True None by (simp add: client_Scan_def)
      from pos have nz: "cursor + seedScanBatchSize \<noteq> 0" by simp
      have split: "set ?rest = set ?batch \<union> set (drop (cursor + seedScanBatchSize) (product_keys w))"
        by (metis add.commute append_take_drop_id drop_drop set_append)
      have "collect_loop w cursor existing =
          collect_loop w (cursor + seedScanBatchSize) (existing \<union> ?f ` set ?batch)"
        using pos by (subst collect_loop.simps) (simp add: scan fold_insert_ids Let_def)
      with "1.prems" have "collect_loop w (cursor + seedScanBatchSize)
          (fold (\<lambda>key ex. insert (?f key) ex) ?batch existing) = Inr res"
        by (simp add: fold_insert_ids)
      from "1.IH" [OF scan refl refl nz this]
      have "res = (existing \<union> ?f ` set ?batch)
          \<union> ?f ` set (drop (cursor + seedScanBatchSize) (product_keys w))"
        by (simp add: fold_insert_ids)
      then show ?thesis unfolding split by (simp add: image_Un Un_assoc)
    qed
  qed
qed

lemma collectExistingProductIDs_sound:
  "collectExistingProductIDs w = Inr existing \<Longrightarrow> existing = product_ids w"
  by (auto simp: collectExistingProductIDs_def product_ids_def dest: collect_loop_sound)

lemma seed_random_invariant:
  assumes "existing = product_ids w"
    and "seed_random target r w existing ds = Some (e, w1)"
  shows "grows w w1 \<and> (e = None \<longrightarrow> target \<le> card (product_ids w1))"
  using assms
proof (induction ds arbitrary: w existing)
  case Nil
  then show ?case by (auto simp: grows_refl split: if_splits)
next
  case (Cons d ds)
  let ?pid = "''seed-'' @ filter (\<lambda>c. c \<noteq> CHR ''-'') (d_uuid d)"
  show ?case
  proof (cases "card existing < target")
    case False
    with Cons.prems show ?thesis by (auto simp: grows_refl)
  next
    case below: True
    show ?thesis
    proof (cases "?pid \<in> existing")
      case True
      with below Cons.prems(2) have "seed_random target r w existing ds = Some (e, w1)"
        by (simp add: Let_def)
      from Cons.IH [OF Cons.prems(1) this] show ?thesis .
    next
      case False
      obtain t w0 where tn: "time_Now w = (t, w0)" by (cases "time_Now w")
      note te = time_Now_env [OF tn]
      let ?product = "\<lparr>ID = ?pid, Name = d_name d, Description = d_description d,
          Price = d_price d, Category = d_category d, Stock = d_stock d, CreatedAt = t\<rparr>"
      obtain e2 p1 w2 where c: "CreateProduct r w0 ?product = (e2, p1, w2)"
        by (cases "CreateProduct r w0 ?product")
      have ids0: "product_ids w0 = product_ids w" using te(1) by (rule product_ids_same_kv)
      have g0: "grows w w0" using te by (rule grows_same_kv)
      have nid: "ID ?product \<noteq> []" by simp
      from False Cons.prems(1) ids0 have fr: "ID ?product \<notin> product_ids w0" by simp
      note cf = CreateProduct_fresh [OF c nid fr]
      have step: "seed_random target r w existing (d # ds) =
          (case e2 of
             Some err \<Rightarrow> Some (Some (wrap (''failed to seed product '' @ ?pid @ '': '') err), w2)
           | None \<Rightarrow> seed_random target r w2 (insert ?pid existing) ds)"
        using below False c by (simp add: tn Let_def split: option.split)
      show ?thesis
      proof (cases e2)
        case (Some err)
        with step Cons.prems(2) have "e \<noteq> None" "w1 = w2" by auto
        with grows_trans [OF g0 cf(1)] show ?thesis by auto
      next
        case None
        with step Cons.prems(2)
        have rec: "seed_random target r w2 (insert ?pid existing) ds = Some (e, w1)" by simp
        from cf(3) None ids0 Cons.prems(1)
        have inv: "insert ?pid existing = product_ids w2" by simp
        from Cons.IH [OF inv rec] grows_trans [OF g0 cf(1)]
        show ?thesis by (auto intro: grows_trans)
      qed
    qed
  qed
qed

lemma seedProducts_ids: "\<forall>p \<in> set seedProducts. ID p \<noteq> []"
  by (simp add: seedProducts_def)

lemma grows_ids_mono:
  assumes "grows w w1"
  shows "product_ids w \<subseteq> product_ids w1"
proof -
  from assms obtain added where "kv w1 = kv w @ added" by (auto simp: grows_def)
  then have "set (product_keys w) \<subseteq> set (product_keys w1)"
    by (auto simp: product_keys_def)
  then show ?thesis unfolding product_ids_def by (rule image_mono)
qed

lemma grows_map_of:
  assumes "grows w w1" and "map_of (kv w) key = Some data"
  shows "map_of (kv w1) key = Some data"
proof -
  from assms(1) obtain added where "kv w1 = kv w @ added" by (auto simp: grows_def)
  with assms(2) show ?thesis by (simp add: map_of_append)
qed

lemma grows_faults: "grows w w1 \<Longrightarrow> scan_fault w1 = scan_fault w \<and> keys_fault w1 = keys_fault w"
  by (simp add: grows_def)

lemma grows_distinct:
  "grows w w1 \<Longrightarrow> distinct (map fst (kv w)) \<Longrightarrow> distinct (map fst (kv w1))"
  by (simp add: grows_def)

lemma seed_auto_done:
  "minSeedProducts \<le> count \<Longrightarrow> seed_auto r w existing count = (None, w)"
  by (subst seed_auto.simps) simp

lemma seed_auto_grows:
  "existing = product_ids w \<Longrightarrow> seed_auto r w existing count = (e, w1) \<Longrightarrow> grows w w1"
proof (induction r w existing count rule: seed_auto.induct)
  case (1 r w existing count)
  let ?pid = "''seed-auto-'' @ fmt_d (int count + 1)"
  show ?case
  proof (cases "count < minSeedProducts")
    case False
    then have "seed_auto r w existing count = (None, w)" by (simp add: seed_auto_done)
    with "1.prems" show ?thesis by (simp add: grows_refl)
  next
    case below: True
    show ?thesis
    proof (cases "?pid \<in> existing")
      case True
      with below have "seed_auto r w existing count = seed_auto r w existing (Suc count)"
        by (subst seed_auto.simps) (simp add: Let_def)
      with "1.prems"(2) have "seed_auto r w existing (Suc count) = (e, w1)" by simp
      from "1.IH"(1) [OF below refl True "1.prems"(1) this] show ?thesis .
    next
      case False
      obtain t w0 where tn: "time_Now w = (t, w0)" by (cases "time_Now w")
      note te = time_Now_env [OF tn]
      let ?name = "''Sample Product '' @ fmt_d (int count + 1)"
      let ?product = "\<lparr>ID = ?pid, Name = ?name,
          Description = ''Automatically generated sample product'',
          Price = 49.99 + real count, Category = ''Sample'',
          Stock = 20 + of_nat count, CreatedAt = t\<rparr>"
      obtain e2 p1 w2 where c: "CreateProduct r w0 ?product = (e2, p1, w2)"
        by (cases "CreateProduct r w0 ?product")
      have ids0: "product_ids w0 = product_ids w" using te(1) by (rule product_ids_same_kv)
      have g0: "grows w w0" using te by (rule grows_same_kv)
      have nid: "ID ?product \<noteq> []" by simp
      from False "1.prems"(1) ids0 have fr: "ID ?product \<notin> product_ids w0" by simp
      note cf = CreateProduct_fresh [OF c nid fr]
      have step: "seed_auto r w existing count =
          (case e2 of
             Some err \<Rightarrow> (Some (wrap (''failed to auto-seed product '' @ ?pid @ '': '') err), w2)
           | None \<Rightarrow> seed_auto r w2 (insert ?pid existing) (Suc count))"
        using below False c
        by (subst seed_auto.simps) (simp add: tn Let_def split: option.split)
      show ?thesis
      proof (cases e2)
        case (Some err)
        with step "1.prems"(2) have "w1 = w2" by simp
        with grows_trans [OF g0 cf(1)] show ?thesis by simp
      next
        case None
        with step "1.prems"(2)
        have rec: "seed_auto r w2 (insert ?pid existing) (Suc count) = (e, w1)" by simp
        from cf(3) None ids0 "1.prems"(1)
        have inv: "insert ?pid existing = product_ids w2" by simp
        from c None have c1: "CreateProduct r w0 ?product = (None, p1, w2)" by simp
        have "grows w2 w1"
          by (rule "1.IH"(2) [OF below refl False refl refl tn [symmetric] refl
                c1 [symmetric] refl refl inv rec])
        with grows_trans [OF g0 cf(1)] show ?thesis by (rule grows_trans)
      qed
    qed
  qed
qed

lemma finite_product_ids: "finite (product_ids w)"
  by (simp add: product_ids_def)

lemma seedData_to_noop:
  assumes "collectExistingProductIDs w = Inr existing" and "target \<le> card existing"
  shows "seedData_to target r w draws = Some (None, w)"
  using assms by (simp add: seedData_to_def)

lemma seedData_to_invariant:
  assumes "seedData_to target r w draws = Some (e, w1)"
  shows "grows w w1 \<and> (e = None \<longrightarrow> target \<le> card (product_ids w1))"
proof (cases "collectExistingProductIDs w")
  case (Inl err)
  with assms show ?thesis by (auto simp: seedData_to_def grows_refl)
next
  case (Inr existing)
  then have ex: "existing = product_ids w" by (rule collectExistingProductIDs_sound)
  show ?thesis
  proof (cases "target \<le> card existing")
    case True
    with assms Inr ex show ?thesis by (auto simp: seedData_to_def grows_refl)
  next
    case False
    obtain e2 wa exa where sb:
      "seed_base ''failed to seed base product '' r w existing seedProducts = (e2, wa, exa)"
      by (cases "seed_base ''failed to seed base product '' r w existing seedProducts")
    from seed_base_invariant [OF seedProducts_ids ex sb]
    have ga: "grows w wa" and exa: "exa = product_ids wa" by blast+
    show ?thesis
    proof (cases e2)
      case (Some err)
      with assms Inr False sb have "e = Some err" "w1 = wa"
        by (simp_all add: seedData_to_def)
      with ga show ?thesis by simp
    next
      case None
      show ?thesis
      proof (cases "target \<le> card exa")
        case True
        with assms Inr False sb None have "e = None" "w1 = wa"
          by (simp_all add: seedData_to_def)
        with ga exa True show ?thesis by simp
      next
        case below: False
        obtain t wb where tn: "time_Now wa = (t, wb)" by (cases "time_Now wa")
        note te = time_Now_env [OF tn]
        from assms Inr False sb None below tn
        have sr: "seed_random target r wb exa draws = Some (e, w1)"
          by (simp add: seedData_to_def)
        have "exa = product_ids wb" using exa product_ids_same_kv [OF te(1)] by simp
        from seed_random_invariant [OF this sr]
        have "grows wb w1" and t: "e = None \<longrightarrow> target \<le> card (product_ids w1)"
          by simp_all
        with grows_trans [OF ga grows_trans [OF grows_same_kv [OF te]]] show ?thesis
          by simp
      qed
    qed
  qed
qed

lemma seedData_to_second_run:
  assumes "seedData_to target r w draws = Some (None, w1)"
  shows "\<exists>e2. seedData_to target r w1 draws2 = Some (e2, w1)
           \<and> ((\<forall>c. scan_fault w c = None) \<longrightarrow> e2 = None)"
proof -
  from seedData_to_invariant [OF assms]
  have g: "grows w w1" and t: "target \<le> card (product_ids w1)" by simp_all
  show ?thesis
  proof (cases "collectExistingProductIDs w1")
    case (Inl err)
    have "\<not> (\<forall>c. scan_fault w c = None)"
    proof
      assume "\<forall>c. scan_fault w c = None"
      with grows_faults [OF g] have "\<And>c. scan_fault w1 c = None" by simp
      from collectExistingProductIDs_result [OF this] Inl show False by simp
    qed
    with Inl show ?thesis by (simp add: seedData_to_def)
  next
    case (Inr existing)
    with t collectExistingProductIDs_sound [OF Inr]
    have "seedData_to target r w1 draws2 = Some (None, w1)"
      by (simp add: seedData_to_noop)
    then show ?thesis by simp
  qed
qed

lemma seed_base_noop:
  "ID ` set ps \<subseteq> existing \<Longrightarrow> seed_base msg r w existing ps = (None, w, existing)"
  by (induction ps) simp_all

lemma card_seed_ids: "card (ID ` set seedProducts) = 5"
  by (simp add: seedProducts_def)

lemma seedData_small_noop:
  assumes "keys_fault w = None" and "ID ` set seedProducts \<subseteq> product_ids w"
  shows "seedData_small r w = (None, w)"
proof -
  have "card (ID ` set seedProducts) \<le> card (product_ids w)"
    using assms(2) finite_product_ids by (rule card_mono [rotated])
  then have c: "minSeedProducts \<le> card (product_ids w)"
    by (simp add: card_seed_ids minSeedProducts_def)
  have ids: "set (map (\<lambda>key. TrimPrefix key productsKeyPrefix) (product_keys w)) = product_ids w"
    by (simp add: product_ids_def)
  show ?thesis
    using assms(1) c
    by (simp add: seedData_small_def client_Keys_def ids seed_base_noop [OF assms(2)]
        seed_auto_done del: set_map)
qed

lemma seedData_small_invariant:
  assumes "seedData_small r w = (e, w1)"
  shows "grows w w1
     \<and> (e = None \<longrightarrow> keys_fault w = None \<and> ID ` set seedProducts \<subseteq> product_ids w1)"
proof (cases "keys_fault w")
  case (Some x)
  with assms show ?thesis by (auto simp: seedData_small_def client_Keys_def grows_refl)
next
  case None
  let ?existing = "set (map (\<lambda>key. TrimPrefix key productsKeyPrefix) (product_keys w))"
  have ex: "?existing = product_ids w" by (simp add: product_ids_def)
  obtain e2 wa exa where sb:
    "seed_base ''failed to seed product '' r w ?existing seedProducts = (e2, wa, exa)"
    by (cases "seed_base ''failed to seed product '' r w ?existing seedProducts")
  from seed_base_invariant [OF seedProducts_ids ex sb]
  have ga: "grows w wa" and exa: "exa = product_ids wa"
    and base: "e2 = None \<longrightarrow> ID ` set seedProducts \<subseteq> exa" by blast+
  show ?thesis
  proof (cases e2)
    case (Some err)
    with assms None sb have "e = Some err" "w1 = wa"
      by (simp_all add: seedData_small_def client_Keys_def del: set_map)
    with ga show ?thesis by simp
  next
    case e2: None
    with assms None sb have sa: "seed_auto r wa exa (card exa) = (e, w1)"
      by (simp add: seedData_small_def client_Keys_def del: set_map)
    from seed_auto_grows [OF exa sa] have g1: "grows wa w1" .
    from base e2 exa grows_ids_mono [OF g1] have "ID ` set seedProducts \<subseteq> product_ids w1"
      by auto
    with grows_trans [OF ga g1] None show ?thesis by simp
  qed
qed

lemma assign_defaults_shape: "\<exists>t. snd (assign_defaults w p) = w\<lparr>ticks := t\<rparr>"
proof (cases "ID p = []")
  case True
  show ?thesis
  proof (cases "IsZero (CreatedAt p)")
    case True
    with \<open>ID p = []\<close> have "snd (assign_defaults w p) = w\<lparr>ticks := Suc (Suc (ticks w))\<rparr>"
      by (simp add: assign_defaults_def time_Now_def)
    then show ?thesis ..
  next
    case False
    with \<open>ID p = []\<close> have "snd (assign_defaults w p) = w\<lparr>ticks := Suc (ticks w)\<rparr>"
      by (simp add: assign_defaults_def time_Now_def)
    then show ?thesis ..
  qed
next
  case False
  show ?thesis
  proof (cases "IsZero (CreatedAt p)")
    case True
    with False have "snd (assign_defaults w p) = w\<lparr>ticks := Suc (ticks w)\<rparr>"
      by (simp add: assign_defaults_def time_Now_def)
    then show ?thesis ..
  next
    case z: False
    with False have "snd (assign_defaults w p) = w\<lparr>ticks := ticks w\<rparr>"
      by (simp add: assign_defaults_def)
    then show ?thesis ..
  qed
qed

lemma CreateProduct_shape:
  "\<exists>k t l d. snd (snd (CreateProduct r w p)) = w\<lparr>kv := k, ticks := t, logs := l, index_docs := d\<rparr>"
proof -
  obtain p2 w2 where a: "assign_defaults w p = (p2, w2)"
    by (cases "assign_defaults w p")
  from assign_defaults_shape [of w p] a obtain t where w2: "w2 = w\<lparr>ticks := t\<rparr>" by auto
  have same: "snd (snd (CreateProduct r w p)) = w\<lparr>kv := kv w, ticks := t, logs := logs w,
      index_docs := index_docs w\<rparr>" if "snd (snd (CreateProduct r w p)) = w2"
    using that w2 by simp
  show ?thesis
  proof (cases "json_Marshal w2 p2")
    case (Inl x)
    then have "snd (snd (CreateProduct r w p)) = w2" by (simp add: CreateProduct_def a)
    from same [OF this] show ?thesis by blast
  next
    case (Inr data)
    show ?thesis
    proof (cases "set_fault w2 (keyFor (ID p2))")
      case (Some x)
      with Inr have "snd (snd (CreateProduct r w p)) = w2"
        by (simp add: CreateProduct_def a client_Set_def)
      from same [OF this] show ?thesis by blast
    next
      case None
      let ?k = "store_put (keyFor (ID p2)) data (kv w)"
      let ?doc = "\<lparr>doc_id = keyFor (ID p2), doc_name = Name p2,
          doc_description = Description p2, doc_category = Category p2,
          doc_price = Price p2, doc_stock = Stock p2\<rparr>"
      show ?thesis
      proof (cases "searchEnabled r \<and> search_present r")
        case False
        with Inr None have "snd (snd (CreateProduct r w p)) =
            w\<lparr>kv := ?k, ticks := t, logs := logs w, index_docs := index_docs w\<rparr>"
          by (auto simp: CreateProduct_def a client_Set_def w2 Let_def)
        then show ?thesis by blast
      next
        case True
        show ?thesis
        proof (cases "index_fault w2 (keyFor (ID p2))")
          case (Some x)
          with Inr None True have "snd (snd (CreateProduct r w p)) =
              w\<lparr>kv := ?k, ticks := t, logs := logs w @ [''Failed to index product''],
                index_docs := index_docs w\<rparr>"
            by (simp add: CreateProduct_def a client_Set_def search_Index_def w2 Let_def)
          then show ?thesis by blast
        next
          case n2: None
          with Inr None True have "snd (snd (CreateProduct r w p)) =
              w\<lparr>kv := ?k, ticks := t, logs := logs w, index_docs := index_docs w @ [?doc]\<rparr>"
            by (simp add: CreateProduct_def a client_Set_def search_Index_def w2 Let_def)
          then show ?thesis by blast
        qed
      qed
    qed
  qed
qed

lemma CreateProduct_services:
  assumes "CreateProduct r w p = (e, p1, w1)"
  shows "set_fault w1 = set_fault w" "json_Marshal w1 = json_Marshal w"
    "get_fault w1 = get_fault w" "json_Unmarshal w1 = json_Unmarshal w"
proof -
  from CreateProduct_shape [of r w p] assms obtain k t l d
    where "w1 = w\<lparr>kv := k, ticks := t, logs := l, index_docs := d\<rparr>" by auto
  then show "set_fault w1 = set_fault w" "json_Marshal w1 = json_Marshal w"
    "get_fault w1 = get_fault w" "json_Unmarshal w1 = json_Unmarshal w"
    by simp_all
qed

lemma CreateProduct_succeeds:
  assumes sf: "\<forall>key. set_fault w key = None" and jm: "\<forall>p. \<exists>d. json_Marshal w p = Inr d"
  shows "fst (CreateProduct r w p) = None"
proof -
  obtain p2 w2 where a: "assign_defaults w p = (p2, w2)"
    by (cases "assign_defaults w p")
  from jm obtain data where m: "json_Marshal w p2 = Inr data" by blast
  from sf have s: "set_fault w (keyFor (ID p2)) = None" by simp
  from CreateProduct_writes [OF a m s, of r] show ?thesis by auto
qed

lemma seed_base_succeeds:
  assumes "\<forall>key. set_fault w key = None" and "\<forall>p. \<exists>d. json_Marshal w p = Inr d"
  shows "fst (seed_base msg r w existing ps) = None"
  using assms
proof (induction ps arbitrary: w existing)
  case Nil
  show ?case by simp
next
  case (Cons product ps)
  show ?case
  proof (cases "ID product \<in> existing")
    case True
    with Cons.IH [OF Cons.prems] show ?thesis by simp
  next
    case False
    define seed where "seed = (if IsZero (CreatedAt product)
        then product\<lparr>CreatedAt := clock w (ticks w)\<rparr> else product)"
    define w0 where "w0 = (if IsZero (CreatedAt product)
        then w\<lparr>ticks := Suc (ticks w)\<rparr> else w)"
    have st: "(if IsZero (CreatedAt product)
            then (let (t, w') = time_Now w in (product\<lparr>CreatedAt := t\<rparr>, w'))
            else (product, w)) = (seed, w0)"
      by (simp add: seed_def w0_def time_Now_def)
    have h0: "\<forall>key. set_fault w0 key = None" "\<forall>p. \<exists>d. json_Marshal w0 p = Inr d"
      using Cons.prems by (simp_all add: w0_def)
    obtain e2 seed1 w2 where c: "CreateProduct r w0 seed = (e2, seed1, w2)"
      by (cases "CreateProduct r w0 seed")
    from CreateProduct_succeeds [OF h0, of r seed] c have e2: "e2 = None" by simp
    from CreateProduct_services(1,2) [OF c] h0
    have h2: "\<forall>key. set_fault w2 key = None" "\<forall>p. \<exists>d. json_Marshal w2 p = Inr d"
      by simp_all
    have "seed_base msg r w existing (product # ps) =
        seed_base msg r w2 (insert (ID seed1) existing) ps"
      using False by (simp add: st c e2)
    with Cons.IH [OF h2] show ?thesis by simp
  qed
qed

lemma seedData_small_succeeds:
  assumes "keys_fault w = None" and "\<forall>key. set_fault w key = None"
    and "\<forall>p. \<exists>d. json_Marshal w p = Inr d"
  shows "\<exists>w1. seedData_small r w = (None, w1)"
proof -
  let ?existing = "set (map (\<lambda>key. TrimPrefix key productsKeyPrefix) (product_keys w))"
  have ex: "?existing = product_ids w" by (simp add: product_ids_def)
  obtain e2 wa exa where sb:
    "seed_base ''failed to seed product '' r w ?existing seedProducts = (e2, wa, exa)"
    by (cases "seed_base ''failed to seed product '' r w ?existing seedProducts")
  from seed_base_succeeds [OF assms(2,3), of "''failed to seed product ''" r ?existing seedProducts] sb
  have e2: "e2 = None" by simp
  from seed_base_invariant [OF seedProducts_ids ex sb] e2
  have exa: "exa = product_ids wa" and base: "ID ` set seedProducts \<subseteq> exa" by blast+
  have "card (ID ` set seedProducts) \<le> card exa"
    using base finite_product_ids [of wa] unfolding exa by (rule card_mono [rotated])
  then have c: "minSeedProducts \<le> card exa"
    by (simp add: card_seed_ids minSeedProducts_def)
  have "seedData_small r w = (None, wa)"
    using assms(1) sb e2 c
    by (simp add: seedData_small_def client_Keys_def seed_auto_done del: set_map)
  then show ?thesis ..
qed

lemma product_ids_key:
  assumes "pid \<in> product_ids w"
  shows "keyFor pid \<in> fst ` set (kv w)"
proof -
  from assms obtain key where k: "key \<in> set (product_keys w)"
    and p: "pid = TrimPrefix key productsKeyPrefix"
    by (auto simp: product_ids_def)
  from k have "HasPrefix key productsKeyPrefix" and "key \<in> fst ` set (kv w)"
    by (auto simp: product_keys_def)
  with p keyFor_TrimPrefix [of key] show ?thesis by simp
qed

lemma distinct_product_ids:
  assumes "distinct (map fst (kv w))"
  shows "distinct (map (\<lambda>key. TrimPrefix key productsKeyPrefix) (product_keys w))"
proof -
  have "inj_on (\<lambda>key. TrimPrefix key productsKeyPrefix) (set (product_keys w))"
  proof (rule inj_on_inverseI [where g = keyFor])
    fix key assume "key \<in> set (product_keys w)"
    then have "HasPrefix key productsKeyPrefix" by (simp add: product_keys_def)
    then show "keyFor (TrimPrefix key productsKeyPrefix) = key" by (rule keyFor_TrimPrefix)
  qed
  moreover from assms have "distinct (product_keys w)"
    by (simp add: product_keys_def)
  ultimately show ?thesis by (simp add: distinct_map)
qed

text \<open>
  C1. The claim asks that a run writes nothing once the set of existing product IDs has the
  minimum size, and that a second run in succession leaves the record count and the IDs as
  the first left them. In the large-catalog variant a run writes nothing when the scans
  succeed and the set of IDs has the target size; in the small-catalog variant it writes
  nothing when the listing succeeds and every base ID is present. In both, a run that
  returned without error leaves at least the minimum of IDs, leaves the keys and IDs as free
  of duplicates as they were, and is followed by a second run that writes nothing.
\<close>

theorem seeding_second_run_writes_nothing:
  "((\<forall>c. scan_fault w c = None) \<and> target \<le> card (product_ids w)
      \<longrightarrow> seedData_to target r w draws = Some (None, w))
   \<and> (keys_fault w = None \<and> ID ` set seedProducts \<subseteq> product_ids w
      \<longrightarrow> seedData_small r w = (None, w))
   \<and> (seedData_to target r w draws = Some (None, w1)
      \<longrightarrow> target \<le> card (product_ids w1)
          \<and> (distinct (map fst (kv w))
              \<longrightarrow> distinct (map (\<lambda>key. TrimPrefix key productsKeyPrefix) (product_keys w1)))
          \<and> (\<forall>draws2. \<exists>e2. seedData_to target r w1 draws2 = Some (e2, w1)
                \<and> ((\<forall>c. scan_fault w c = None) \<longrightarrow> e2 = None)))
   \<and> (seedData_small r w = (None, w2)
      \<longrightarrow> minSeedProducts \<le> card (product_ids w2)
          \<and> (distinct (map fst (kv w))
              \<longrightarrow> distinct (map (\<lambda>key. TrimPrefix key productsKeyPrefix) (product_keys w2)))
          \<and> seedData_small r w2 = (None, w2))"
proof (intro conjI impI allI)
  assume "(\<forall>c. scan_fault w c = None) \<and> target \<le> card (product_ids w)"
  then have "collectExistingProductIDs w = Inr (product_ids w)"
    and "target \<le> card (product_ids w)"
    by (simp_all add: collectExistingProductIDs_result)
  then show "seedData_to target r w draws = Some (None, w)" by (rule seedData_to_noop)
next
  assume "keys_fault w = None \<and> ID ` set seedProducts \<subseteq> product_ids w"
  then show "seedData_small r w = (None, w)" by (simp add: seedData_small_noop)
next
  assume a: "seedData_to target r w draws = Some (None, w1)"
  from seedData_to_invariant [OF a] show "target \<le> card (product_ids w1)" by simp
next
  assume a: "seedData_to target r w draws = Some (None, w1)"
    and d: "distinct (map fst (kv w))"
  from seedData_to_invariant [OF a] have "grows w w1" by simp
  from grows_distinct [OF this d]
  show "distinct (map (\<lambda>key. TrimPrefix key productsKeyPrefix) (product_keys w1))"
    by (rule distinct_product_ids)
next
  fix draws2
  assume a: "seedData_to target r w draws = Some (None, w1)"
  from seedData_to_second_run [OF a]
  show "\<exists>e2. seedData_to target r w1 draws2 = Some (e2, w1)
      \<and> ((\<forall>c. scan_fault w c = None) \<longrightarrow> e2 = None)" .
next
  assume a: "seedData_small r w = (None, w2)"
  from seedData_small_invariant [OF a]
  have b: "ID ` set seedProducts \<subseteq> product_ids w2" by simp
  have "card (ID ` set seedProducts) \<le> card (product_ids w2)"
    using b finite_product_ids by (rule card_mono [rotated])
  then show "minSeedProducts \<le> card (product_ids w2)"
    by (simp add: card_seed_ids minSeedProducts_def)
next
  assume a: "seedData_small r w = (None, w2)" and d: "distinct (map fst (kv w))"
  from seedData_small_invariant [OF a] have "grows w w2" by simp
  from grows_distinct [OF this d]
  show "distinct (map (\<lambda>key. TrimPrefix key productsKeyPrefix) (product_keys w2))"
    by (rule distinct_product_ids)
next
  assume a: "seedData_small r w = (None, w2)"
  from seedData_small_invariant [OF a]
  have g: "grows w w2" and k: "keys_fault w = None"
    and b: "ID ` set seedProducts \<subseteq> product_ids w2" by simp_all
  from grows_faults [OF g] k have "keys_fault w2 = None" by simp
  then show "seedData_small r w2 = (None, w2)" using b by (rule seedData_small_noop)
qed

lemma fixture_env_healthy:
  "\<forall>key. set_fault fixture_env key = None" "\<forall>p. \<exists>d. json_Marshal fixture_env p = Inr d"
  "keys_fault fixture_env = None" "\<forall>c. scan_fault fixture_env c = None"
  by (simp_all add: fixture_env_def)

lemma foreign_env_healthy:
  "\<forall>key. set_fault foreign_env key = None" "\<forall>p. \<exists>d. json_Marshal foreign_env p = Inr d"
  "keys_fault foreign_env = None"
  by (simp_all add: foreign_env_def fixture_env_def)

lemma product_ids_foreign: "product_ids foreign_env = {''a'', ''b'', ''c'', ''d'', ''e''}"
  by (simp add: product_ids_def product_keys_def foreign_env_def keyFor_HasPrefix
      TrimPrefix_keyFor)

lemma product_ids_fixture:
  "product_ids fixture_env = {''seed-1'', ''seed-2'', ''seed-3'', ''seed-4'', ''seed-5''}"
  by (simp add: product_ids_def product_keys_def fixture_env_def fixture_table_def
      seedProducts_def keyFor_HasPrefix TrimPrefix_keyFor)

lemma seed_ids: "ID ` set seedProducts = {''seed-1'', ''seed-2'', ''seed-3'', ''seed-4'', ''seed-5''}"
  by (simp add: seedProducts_def)

lemma fixture_random_run:
  "\<exists>w1. seedData_to 6 fixture_repo fixture_env [fixture_draw] = Some (None, w1)"
proof -
  let ?ids = "{''seed-1'', ''seed-2'', ''seed-3'', ''seed-4'', ''seed-5''}"
  let ?r = fixture_repo
  have col: "collectExistingProductIDs fixture_env = Inr ?ids"
    using collectExistingProductIDs_result [of fixture_env] fixture_env_healthy(4)
    by (simp add: product_ids_fixture)
  have sb: "seed_base ''failed to seed base product '' ?r fixture_env ?ids seedProducts
      = (None, fixture_env, ?ids)"
    by (rule seed_base_noop) (simp add: seed_ids)
  obtain t wb where tn: "time_Now fixture_env = (t, wb)" by (cases "time_Now fixture_env")
  have hb: "\<forall>key. set_fault wb key = None" "\<forall>p. \<exists>d. json_Marshal wb p = Inr d"
    using tn by (auto simp: time_Now_def fixture_env_def)
  obtain t2 wc where tn2: "time_Now wb = (t2, wc)" by (cases "time_Now wb")
  have hc: "\<forall>key. set_fault wc key = None" "\<forall>p. \<exists>d. json_Marshal wc p = Inr d"
    using tn2 hb by (auto simp: time_Now_def)
  let ?pid = "''seed-0f8fad5bd9cb469f''"
  let ?product = "\<lparr>ID = ?pid, Name = d_name fixture_draw,
      Description = d_description fixture_draw, Price = d_price fixture_draw,
      Category = d_category fixture_draw, Stock = d_stock fixture_draw, CreatedAt = t2\<rparr>"
  obtain e2 p1 w2 where c: "CreateProduct ?r wc ?product = (e2, p1, w2)"
    by (cases "CreateProduct ?r wc ?product")
  from CreateProduct_succeeds [OF hc, of ?r ?product] c have e2: "e2 = None" by simp
  have pid: "filter (\<lambda>c. c \<noteq> CHR ''-'') (d_uuid fixture_draw) = ''0f8fad5bd9cb469f''"
    by (simp add: fixture_draw_def)
  have sr: "seed_random 6 ?r wb ?ids [fixture_draw] = Some (None, w2)"
    using c e2 by (simp add: pid tn2 Let_def)
  have "seedData_to 6 ?r fixture_env [fixture_draw] = Some (None, w2)"
    by (simp add: seedData_to_def col sb tn sr del: seed_random.simps seed_base.simps)
  then show ?thesis ..
qed

theorem seeding_second_run_writes_nothing_witness:
  "(\<forall>c. scan_fault fixture_env c = None) \<and> 5 \<le> card (product_ids fixture_env)
   \<and> seedData_to 5 fixture_repo fixture_env [] = Some (None, fixture_env)
   \<and> keys_fault fixture_env = None \<and> ID ` set seedProducts \<subseteq> product_ids fixture_env
   \<and> seedData_small fixture_repo fixture_env = (None, fixture_env)
   \<and> (\<exists>w1. seedData_to 6 fixture_repo fixture_env [fixture_draw] = Some (None, w1)
          \<and> 6 \<le> card (product_ids w1)
          \<and> seedData_to 6 fixture_repo w1 [] = Some (None, w1))
   \<and> (\<exists>w2. seedData_small fixture_repo foreign_env = (None, w2)
          \<and> minSeedProducts \<le> card (product_ids w2)
          \<and> seedData_small fixture_repo w2 = (None, w2))"
proof -
  have sc: "\<forall>c. scan_fault fixture_env c = None" by (rule fixture_env_healthy(4))
  have c5: "5 \<le> card (product_ids fixture_env)" by (simp add: product_ids_fixture)
  have kf: "keys_fault fixture_env = None" by (rule fixture_env_healthy(3))
  have sub: "ID ` set seedProducts \<subseteq> product_ids fixture_env"
    by (simp add: seed_ids product_ids_fixture)
  have p1: "seedData_to 5 fixture_repo fixture_env [] = Some (None, fixture_env)"
    using seeding_second_run_writes_nothing
      [where w = fixture_env and target = 5 and r = fixture_repo and draws = "[]",
       THEN conjunct1] sc c5
    by blast
  have p2: "seedData_small fixture_repo fixture_env = (None, fixture_env)"
    using seeding_second_run_writes_nothing
      [where w = fixture_env and r = fixture_repo, THEN conjunct2, THEN conjunct1] kf sub
    by blast
  obtain w1 where r1: "seedData_to 6 fixture_repo fixture_env [fixture_draw] = Some (None, w1)"
    using fixture_random_run ..
  from seeding_second_run_writes_nothing
      [where w = fixture_env and target = 6 and r = fixture_repo
         and draws = "[fixture_draw]" and ?w1.0 = w1,
       THEN conjunct2, THEN conjunct2, THEN conjunct1] r1
  have q: "6 \<le> card (product_ids w1)"
    and "\<forall>draws2. \<exists>e2. seedData_to 6 fixture_repo w1 draws2 = Some (e2, w1)
            \<and> ((\<forall>c. scan_fault fixture_env c = None) \<longrightarrow> e2 = None)"
    by blast+
  with sc have q2: "seedData_to 6 fixture_repo w1 [] = Some (None, w1)" by blast
  from r1 q q2 have p3: "\<exists>w1. seedData_to 6 fixture_repo fixture_env [fixture_draw] = Some (None, w1)
          \<and> 6 \<le> card (product_ids w1)
          \<and> seedData_to 6 fixture_repo w1 [] = Some (None, w1)"
    by (intro exI [of _ w1] conjI)
  from seedData_small_succeeds [OF foreign_env_healthy(3,1,2), of fixture_repo]
  obtain w2 where r2: "seedData_small fixture_repo foreign_env = (None, w2)" ..
  from seeding_second_run_writes_nothing
      [where w = foreign_env and r = fixture_repo and ?w2.0 = w2,
       THEN conjunct2, THEN conjunct2, THEN conjunct2] r2
  have "minSeedProducts \<le> card (product_ids w2)"
    and "seedData_small fixture_repo w2 = (None, w2)"
    by blast+
  with r2 have p4: "\<exists>w2. seedData_small fixture_repo foreign_env = (None, w2)
          \<and> minSeedProducts \<le> card (product_ids w2)
          \<and> seedData_small fixture_repo w2 = (None, w2)"
    by (intro exI [of _ w2] conjI)
  from sc c5 p1 kf sub p2 p3 p4 show ?thesis by (intro conjI)
qed

text \<open>
  The small-catalog variant has no test of the size before its loop over the base records:
  on a store of five other records (the minimum) it writes the base records.
\<close>

theorem seedData_small_writes_counterexample:
  "keys_fault foreign_env = None
   \<and> minSeedProducts \<le> card (product_ids foreign_env)
   \<and> map_of (kv foreign_env) (keyFor ''seed-1'') = None
   \<and> (\<exists>w1. seedData_small fixture_repo foreign_env = (None, w1)
          \<and> map_of (kv w1) (keyFor ''seed-1'') \<noteq> None)"
proof (intro conjI)
  show "keys_fault foreign_env = None" by (rule foreign_env_healthy(3))
  show "minSeedProducts \<le> card (product_ids foreign_env)"
    by (simp add: product_ids_foreign minSeedProducts_def)
  show "map_of (kv foreign_env) (keyFor ''seed-1'') = None"
    by (simp add: foreign_env_def keyFor_def productsKeyPrefix_def)
  from seedData_small_succeeds [OF foreign_env_healthy(3,1,2), of fixture_repo]
  obtain w1 where s: "seedData_small fixture_repo foreign_env = (None, w1)" ..
  from seedData_small_invariant [OF s]
  have "ID ` set seedProducts \<subseteq> product_ids w1" by simp
  then have "''seed-1'' \<in> product_ids w1" by (simp add: seed_ids)
  from product_ids_key [OF this] have "map_of (kv w1) (keyFor ''seed-1'') \<noteq> None"
    by (simp add: map_of_eq_None_iff)
  with s show "\<exists>w1. seedData_small fixture_repo foreign_env = (None, w1)
          \<and> map_of (kv w1) (keyFor ''seed-1'') \<noteq> None"
    by (intro exI [of _ w1] conjI)
qed

section \<open>Properties of sequences of operations\<close>

lemma exec_read:
  "exec r w (OpGet pid) = Some w"
  "exec r w (OpList page pageSize category searchQuery) = Some w"
  by (simp_all split: sum.split)

lemma exec_create_map_of:
  assumes "exec r w (OpCreate product) = Some w1"
  shows "\<exists>d. map_of (kv w1) key =
           (if key = create_key w product \<and> d \<noteq> None then d else map_of (kv w) key)"
proof -
  obtain e p1 w2 where c: "CreateProduct r w product = (e, p1, w2)"
    by (cases "CreateProduct r w product")
  with assms have w1: "w1 = w2" by simp
  note eff = CreateProduct_effect [OF c]
  show ?thesis
  proof (cases e)
    case (Some x)
    with eff(4) w1 have "map_of (kv w1) key = map_of (kv w) key" by simp
    then show ?thesis by (intro exI [of _ None]) simp
  next
    case None
    with eff(5) obtain data where "kv w2 = store_put (keyFor (ID p1)) data (kv w)" by blast
    with w1 eff(1) have "map_of (kv w1) key =
        (if key = create_key w product then Some data else map_of (kv w) key)"
      by (simp add: map_of_store_put create_key_def)
    then show ?thesis by (intro exI [of _ "Some data"]) simp
  qed
qed

lemma exec_keeps_key:
  assumes "exec r w operation = Some w1" and "map_of (kv w) key = Some data"
  shows "map_of (kv w1) key \<noteq> None"
    and "\<not> (case operation of OpCreate product \<Rightarrow> create_key w product = key | _ \<Rightarrow> False)
           \<Longrightarrow> map_of (kv w1) key = Some data"
proof -
  have "map_of (kv w1) key \<noteq> None
      \<and> (\<not> (case operation of OpCreate product \<Rightarrow> create_key w product = key | _ \<Rightarrow> False)
           \<longrightarrow> map_of (kv w1) key = Some data)"
  proof (cases operation)
    case (OpCreate product)
    from exec_create_map_of [OF assms(1) [unfolded OpCreate], of key] assms(2) OpCreate
    show ?thesis by auto
  next
    case (OpGet pid)
    with assms show ?thesis by (simp add: exec_read)
  next
    case (OpList page pageSize category searchQuery)
    with assms show ?thesis by (simp add: exec_read)
  next
    case (OpSeed target draws)
    with assms(1) obtain e where "seedData_to target r w draws = Some (e, w1)"
      by (auto split: option.splits)
    from seedData_to_invariant [OF this] have "grows w w1" by simp
    from grows_map_of [OF this assms(2)] OpSeed show ?thesis by simp
  next
    case OpSeedSmall
    with assms(1) have "seedData_small r w = (fst (seedData_small r w), w1)" by auto
    from seedData_small_invariant [OF this] have "grows w w1" by simp
    from grows_map_of [OF this assms(2)] OpSeedSmall show ?thesis by simp
  qed
  then show "map_of (kv w1) key \<noteq> None"
    and "\<not> (case operation of OpCreate product \<Rightarrow> create_key w product = key | _ \<Rightarrow> False)
           \<Longrightarrow> map_of (kv w1) key = Some data"
    by blast+
qed

text \<open>
  C5. The claim asks that the stored bytes of an existing record are the same after any
  sequence of \<^verbatim>\<open>CreateProduct\<close>, \<^verbatim>\<open>GetProduct\<close>, \<^verbatim>\<open>ListProducts\<close> and seeding operations.
  \<^verbatim>\<open>CreateProduct\<close> writes with \<^verbatim>\<open>SET\<close> and has no test for an existing key, so it replaces
  the bytes of a record whose ID it is given (or assigns). What holds is: after every
  sequence of these operations that returns, a key that held a record still holds one, and
  it holds the same bytes unless a \<^verbatim>\<open>CreateProduct\<close> of the sequence was given, or assigned,
  the ID of that key.
\<close>

theorem stored_record_changes_only_by_CreateProduct:
  "run r w ops = Some w1 \<and> map_of (kv w) key = Some data
   \<longrightarrow> map_of (kv w1) key \<noteq> None
       \<and> (\<not> creates_key r w ops key \<longrightarrow> map_of (kv w1) key = Some data)"
proof (induction ops arbitrary: w data)
  case Nil
  show ?case by auto
next
  case (Cons operation ops)
  show ?case
  proof (intro impI, elim conjE)
    assume r: "run r w (operation # ops) = Some w1" and m: "map_of (kv w) key = Some data"
    from r obtain wa where e: "exec r w operation = Some wa" and r2: "run r wa ops = Some w1"
      by (auto split: option.splits)
    from exec_keeps_key(1) [OF e m] obtain d2 where m2: "map_of (kv wa) key = Some d2"
      by auto
    from Cons.IH [of wa d2] r2 m2 have k: "map_of (kv w1) key \<noteq> None"
      and u: "\<not> creates_key r wa ops key \<Longrightarrow> map_of (kv w1) key = Some d2"
      by blast+
    show "map_of (kv w1) key \<noteq> None
       \<and> (\<not> creates_key r w (operation # ops) key \<longrightarrow> map_of (kv w1) key = Some data)"
    proof (intro conjI impI)
      show "map_of (kv w1) key \<noteq> None" by (rule k)
    next
      assume n: "\<not> creates_key r w (operation # ops) key"
      then have n1: "\<not> (case operation of OpCreate product \<Rightarrow> create_key w product = key
            | _ \<Rightarrow> False)"
        and n2: "\<not> creates_key r wa ops key"
        using e by (auto split: if_splits)
      from exec_keeps_key(2) [OF e m n1] m2 have "d2 = data" by simp
      with u [OF n2] show "map_of (kv w1) key = Some data" by simp
    qed
  qed
qed


text \<open>
  On the store of the five base records: a lookup, a listing, the creation of a record with
  another ID and a seeding run leave the bytes of \<^verbatim>\<open>seed-1\<close> as they were.
\<close>

lemma fixture_seed_1:
  "map_of (kv fixture_env) (keyFor ''seed-1'') = Some ''seed-1|Laptop Pro 15''"
  by (simp add: fixture_env_def fixture_table_def seedProducts_def keyFor_def
      productsKeyPrefix_def fixture_encode_def)

lemma fixture_time_set: "\<not> IsZero fixture_time"
  by (simp add: IsZero_def fixture_time_def)

theorem stored_record_changes_only_by_CreateProduct_witness:
  "run fixture_repo fixture_env
     [OpGet ''seed-1'', OpList 1 10 [] [], OpCreate fixture_lamp, OpSeedSmall] =
     Some (snd (seedData_small fixture_repo
       (snd (snd (CreateProduct fixture_repo fixture_env fixture_lamp)))))
   \<and> map_of (kv fixture_env) (keyFor ''seed-1'') = Some ''seed-1|Laptop Pro 15''
   \<and> \<not> creates_key fixture_repo fixture_env
       [OpGet ''seed-1'', OpList 1 10 [] [], OpCreate fixture_lamp, OpSeedSmall]
       (keyFor ''seed-1'')
   \<and> map_of (kv (snd (seedData_small fixture_repo
       (snd (snd (CreateProduct fixture_repo fixture_env fixture_lamp))))))
       (keyFor ''seed-1'') = Some ''seed-1|Laptop Pro 15''"
proof -
  let ?ops = "[OpGet ''seed-1'', OpList 1 10 [] [], OpCreate fixture_lamp, OpSeedSmall]"
  let ?w1 = "snd (seedData_small fixture_repo
       (snd (snd (CreateProduct fixture_repo fixture_env fixture_lamp))))"
  have r: "run fixture_repo fixture_env ?ops = Some ?w1"
    by (simp add: exec_read del: exec.simps(2,3))
  have "assign_defaults fixture_env fixture_lamp = (fixture_lamp, fixture_env)"
    by (rule assign_defaults_given) (simp_all add: fixture_lamp_def fixture_time_set)
  then have ck: "create_key fixture_env fixture_lamp = keyFor ''lamp-1''"
    by (simp add: create_key_def fixture_lamp_def)
  have ne: "keyFor ''lamp-1'' \<noteq> keyFor ''seed-1''"
    by (simp add: keyFor_def)
  have n: "\<not> creates_key fixture_repo fixture_env ?ops (keyFor ''seed-1'')"
    using ck ne by (simp add: exec_read del: exec.simps(2,3))
  from stored_record_changes_only_by_CreateProduct
    [where r = fixture_repo and w = fixture_env and ops = ?ops and ?w1.0 = ?w1
       and key = "keyFor ''seed-1''" and data = "''seed-1|Laptop Pro 15''"]
    r fixture_seed_1 n
  have "map_of (kv ?w1) (keyFor ''seed-1'') = Some ''seed-1|Laptop Pro 15''" by blast
  with r fixture_seed_1 n show ?thesis by blast
qed

text \<open>
  \<^verbatim>\<open>CreateProduct\<close> of a record that is given the ID \<^verbatim>\<open>seed-1\<close> returns without error and
  replaces the bytes stored under \<^verbatim>\<open>product:seed-1\<close>; the store holds as many records as
  before.
\<close>

theorem CreateProduct_overwrites_counterexample:
  "map_of (kv fixture_env) (keyFor ''seed-1'') = Some ''seed-1|Laptop Pro 15''
   \<and> (\<exists>w1. CreateProduct fixture_repo fixture_env overwriting = (None, overwriting, w1)
          \<and> run fixture_repo fixture_env [OpCreate overwriting] = Some w1
          \<and> map_of (kv w1) (keyFor ''seed-1'') = Some ''seed-1|Replaced''
          \<and> length (kv w1) = length (kv fixture_env))"
proof -
  have a: "assign_defaults fixture_env overwriting = (overwriting, fixture_env)"
    by (rule assign_defaults_given) (simp_all add: overwriting_def fixture_time_set)
  have m: "json_Marshal fixture_env overwriting = Inr ''seed-1|Replaced''"
    by (simp add: fixture_env_def fixture_encode_def overwriting_def)
  have s: "set_fault fixture_env (keyFor (ID overwriting)) = None"
    by (simp add: fixture_env_def)
  from CreateProduct_writes [OF a m s, of fixture_repo] obtain w1
    where c: "CreateProduct fixture_repo fixture_env overwriting = (None, overwriting, w1)"
      and k: "kv w1 = store_put (keyFor (ID overwriting)) ''seed-1|Replaced'' (kv fixture_env)"
    by blast
  have i: "ID overwriting = ''seed-1''" by (simp add: overwriting_def)
  from c have r: "run fixture_repo fixture_env [OpCreate overwriting] = Some w1" by simp
  from k i have g: "map_of (kv w1) (keyFor ''seed-1'') = Some ''seed-1|Replaced''"
    by (simp add: map_of_store_put)
  from k i have l: "length (kv w1) = length (kv fixture_env)"
    by (simp add: fixture_env_def fixture_table_def seedProducts_def keyFor_def
        productsKeyPrefix_def)
  from fixture_seed_1 c r g l show ?thesis by blast
qed

section \<open>Properties of the verification routine\<close>
















end
